theory Spec2Isabelle
  imports Complex_Main
begin

section \<open>Conventions of the embedding\<close>

text \<open>
  The development follows the Python sources of the URL scanner:
  \<^verbatim>\<open>utils/validators.py\<close>, \<^verbatim>\<open>models/url_features.py\<close>,
  \<^verbatim>\<open>services/api_checker.py\<close>, \<^verbatim>\<open>services/scorer.py\<close> and \<^verbatim>\<open>main.py\<close>.

  \<^item> A Python \<^verbatim>\<open>str\<close> is a \<open>string\<close>; a character is read as the code point with
    the same number, so the strings covered are those of code points below 256.
  \<^item> A Python \<^verbatim>\<open>int\<close> is an \<open>int\<close>. A Python \<^verbatim>\<open>float\<close> is a \<open>real\<close>: the arithmetic
    of the scores is exact, the rounding error of binary floating point is not part of
    the model.
  \<^item> A dictionary with a fixed set of keys is a record; a key that may be absent is an
    \<open>option\<close> field, and \<^verbatim>\<open>d.get(k, default)\<close> is a case distinction on it.
  \<^item> A leading underscore of a Python name is dropped (\<^verbatim>\<open>_calculate_api_score\<close> is
    \<open>calculate_api_score\<close>).
\<close>

section \<open>Python built-ins\<close>

text \<open>
  \<^verbatim>\<open>round(x, 2)\<close>: the nearest multiple of 1/100, a tie going to the even neighbour.
\<close>

definition round_half_even :: "real \<Rightarrow> int" where
  "round_half_even x =
     (let f = \<lfloor>x\<rfloor>; d = x - of_int f
      in if d < 1 / 2 then f
         else if 1 / 2 < d then f + 1
         else if even f then f else f + 1)"

definition py_round2 :: "real \<Rightarrow> real" where
  "py_round2 x = of_int (round_half_even (x * 100)) / 100"

text \<open>\<^verbatim>\<open>needle in haystack\<close> on strings, and \<^verbatim>\<open>str.startswith\<close>.\<close>

fun startswith :: "string \<Rightarrow> string \<Rightarrow> bool" where
  "startswith s [] = True"
| "startswith [] (p # ps) = False"
| "startswith (c # cs) (p # ps) = (c = p \<and> startswith cs ps)"

fun py_in :: "string \<Rightarrow> string \<Rightarrow> bool" where
  "py_in needle [] = (needle = [])"
| "py_in needle (c # cs) = (startswith (c # cs) needle \<or> py_in needle cs)"

text \<open>\<^verbatim>\<open>sep.join(xs)\<close>.\<close>

fun py_join :: "string \<Rightarrow> string list \<Rightarrow> string" where
  "py_join sep [] = []"
| "py_join sep [x] = x"
| "py_join sep (x # y # ys) = x @ sep @ py_join sep (y # ys)"

text \<open>\<^verbatim>\<open>str(n)\<close> of an integer, as it appears in an f-string.\<close>

definition digit_char :: "nat \<Rightarrow> char" where
  "digit_char d = char_of (48 + d)"

fun str_nat :: "nat \<Rightarrow> string" where
  "str_nat n = (if n < 10 then [digit_char n] else str_nat (n div 10) @ [digit_char (n mod 10)])"

definition str_int :: "int \<Rightarrow> string" where
  "str_int i = (if i < 0 then CHR ''-'' # str_nat (nat (- i)) else str_nat (nat i))"

section \<open>services/api\_checker.py: the summary of the provider results\<close>

text \<open>
  What a provider call returns is a dictionary. The keys read by the summary and by the
  scorer are \<^verbatim>\<open>available\<close>, \<^verbatim>\<open>safe\<close>, \<^verbatim>\<open>threats\<close>, \<^verbatim>\<open>malicious_count\<close>,
  \<^verbatim>\<open>threat_type\<close> and \<^verbatim>\<open>error\<close>; each may be absent.
\<close>

record provider_result =
  available :: "bool option"
  safe :: "bool option"
  threats :: "string list option"
  malicious_count :: "int option"
  threat_type :: "string option"
  error :: "string option"

datatype assessment = SAFE | SUSPICIOUS | MALICIOUS

record api_summary =
  total_apis_checked :: int
  apis_flagged_malicious :: int
  apis_marked_safe :: int
  apis_unavailable :: int
  threat_indicators :: "string list"
  overall_assessment :: assessment

record api_results =
  google_safe_browsing :: provider_result
  virustotal :: provider_result
  urlhaus :: provider_result
  summary :: "api_summary option"

text \<open>\<^verbatim>\<open>r.get("available")\<close> as a condition, and \<^verbatim>\<open>not r.get("safe", True)\<close>.\<close>

definition is_available :: "provider_result \<Rightarrow> bool" where
  "is_available r = (case available r of None \<Rightarrow> False | Some b \<Rightarrow> b)"

definition not_safe :: "provider_result \<Rightarrow> bool" where
  "not_safe r = (case safe r of None \<Rightarrow> False | Some b \<Rightarrow> \<not> b)"

text \<open>
  The four counters and the indicator list of \<^verbatim>\<open>_generate_summary\<close> are threaded
  through the three provider blocks; \<open>tally\<close> is one block, its last argument the
  indicator the block appends when the provider flags the URL.
\<close>

record counters =
  total_apis :: int
  apis_flagged :: int
  apis_safe :: int
  unavailable :: int
  indicators :: "string list"

definition tally :: "provider_result \<Rightarrow> string \<Rightarrow> counters \<Rightarrow> counters" where
  "tally r indicator c =
     (if is_available r then
        (if not_safe r
         then c\<lparr>total_apis := total_apis c + 1, apis_flagged := apis_flagged c + 1,
                indicators := indicators c @ [indicator]\<rparr>
         else c\<lparr>total_apis := total_apis c + 1, apis_safe := apis_safe c + 1\<rparr>)
      else c\<lparr>unavailable := unavailable c + 1\<rparr>)"

definition google_indicator :: "provider_result \<Rightarrow> string" where
  "google_indicator gsb =
     ''Google: '' @ py_join '', '' (case threats gsb of None \<Rightarrow> [] | Some ts \<Rightarrow> ts)"

definition virustotal_indicator :: "provider_result \<Rightarrow> string" where
  "virustotal_indicator vt =
     ''VirusTotal: '' @ str_int (case malicious_count vt of None \<Rightarrow> 0 | Some n \<Rightarrow> n)
       @ '' vendors flagged''"

definition urlhaus_indicator :: "provider_result \<Rightarrow> string" where
  "urlhaus_indicator uh =
     ''URLhaus: '' @ (case threat_type uh of None \<Rightarrow> ''unknown'' | Some t \<Rightarrow> t)"

definition generate_summary :: "provider_result \<Rightarrow> provider_result \<Rightarrow> provider_result \<Rightarrow> api_summary" where
  "generate_summary gsb vt uh =
     (let c0 = \<lparr>total_apis = 0, apis_flagged = 0, apis_safe = 0, unavailable = 0, indicators = []\<rparr>;
          c1 = tally gsb (google_indicator gsb) c0;
          c2 = tally vt (virustotal_indicator vt) c1;
          c3 = tally uh (urlhaus_indicator uh) c2
      in \<lparr>total_apis_checked = total_apis c3,
          apis_flagged_malicious = apis_flagged c3,
          apis_marked_safe = apis_safe c3,
          apis_unavailable = unavailable c3,
          threat_indicators = indicators c3,
          overall_assessment = (if apis_flagged c3 > 0 then MALICIOUS else SAFE)\<rparr>)"

text \<open>
  \<^verbatim>\<open>check_all_apis\<close> awaits the three provider calls with
  \<^verbatim>\<open>asyncio.gather(..., return_exceptions=True)\<close>. The network is outside the program:
  what each call settles to is an input, either a returned dictionary or an exception,
  which is stored as \<^verbatim>\<open>{"error": str(e)}\<close>.
\<close>

datatype outcome = Returned provider_result | Raised string

definition settle :: "outcome \<Rightarrow> provider_result" where
  "settle out =
     (case out of
        Returned r \<Rightarrow> r
      | Raised msg \<Rightarrow> \<lparr>available = None, safe = None, threats = None, malicious_count = None,
                       threat_type = None, error = Some msg\<rparr>)"

definition check_all_apis :: "outcome \<times> outcome \<times> outcome \<Rightarrow> api_results" where
  "check_all_apis outs =
     (case outs of (o1, o2, o3) \<Rightarrow>
        (let gsb = settle o1; vt = settle o2; uh = settle o3
         in \<lparr>google_safe_browsing = gsb, virustotal = vt, urlhaus = uh,
             summary = Some (generate_summary gsb vt uh)\<rparr>))"

section \<open>services/scorer.py: the fusion of the two scores\<close>

text \<open>
  The result of the feature analysis, as far as the scorer reads it. The feature
  dictionary itself is a type parameter here and is fixed in the section on
  \<^verbatim>\<open>url_features.py\<close>.
\<close>

record 'f feature_results =
  features :: "'f option"
  feature_risk_score :: "real option"
  risk_factors :: "string list option"
  total_features :: "int option"

datatype confidence_level = HIGH | MEDIUM | LOW | VERY_LOW

record risk_score =
  final_score :: real
  risk_level :: assessment
  api_score :: real
  feature_score :: real
  api_contribution :: real
  feature_contribution :: real
  all_threat_indicators :: "string list"
  recommendations :: "string list"
  confidence :: confidence_level

definition SAFE_THRESHOLD :: real where "SAFE_THRESHOLD = 30"
definition SUSPICIOUS_THRESHOLD :: real where "SUSPICIOUS_THRESHOLD = 70"
definition WEIGHT_api_score :: real where "WEIGHT_api_score = 70 / 100"
definition WEIGHT_feature_score :: real where "WEIGHT_feature_score = 30 / 100"

text \<open>\<^verbatim>\<open>summary.get('total_apis_checked', 0)\<close> on \<^verbatim>\<open>api_results.get('summary', {})\<close>.\<close>

definition get_apis_checked :: "api_results \<Rightarrow> int" where
  "get_apis_checked a = (case summary a of None \<Rightarrow> 0 | Some s \<Rightarrow> total_apis_checked s)"

definition get_apis_flagged :: "api_results \<Rightarrow> int" where
  "get_apis_flagged a = (case summary a of None \<Rightarrow> 0 | Some s \<Rightarrow> apis_flagged_malicious s)"

definition api_score_of :: "int \<Rightarrow> int \<Rightarrow> real" where
  "api_score_of apis_checked apis_flagged0 =
     (if apis_checked = 0 then 50
      else
        (let flagged_ratio = real_of_int apis_flagged0 / real_of_int apis_checked;
             score = flagged_ratio * 100
         in if apis_flagged0 > 1
            then min (score + real_of_int (apis_flagged0 - 1) * 10) 100
            else score))"

definition calculate_api_score :: "api_results \<Rightarrow> real" where
  "calculate_api_score a = api_score_of (get_apis_checked a) (get_apis_flagged a)"

definition determine_risk_level :: "real \<Rightarrow> assessment" where
  "determine_risk_level score =
     (if score \<le> SAFE_THRESHOLD then SAFE
      else if score \<le> SUSPICIOUS_THRESHOLD then SUSPICIOUS
      else MALICIOUS)"

definition collect_threat_indicators :: "api_results \<Rightarrow> 'f feature_results \<Rightarrow> string list" where
  "collect_threat_indicators a fr =
     (case summary a of None \<Rightarrow> [] | Some s \<Rightarrow> threat_indicators s)
     @ (case risk_factors fr of None \<Rightarrow> [] | Some rs \<Rightarrow> rs)"

text \<open>\<^verbatim>\<open>str.lower\<close> on code points below 256.\<close>

definition py_lower_char :: "char \<Rightarrow> char" where
  "py_lower_char c =
     (let n = (of_char c :: nat)
      in if (65 \<le> n \<and> n \<le> 90) \<or> (192 \<le> n \<and> n \<le> 222 \<and> n \<noteq> 215)
         then char_of (n + 32) else c)"

definition py_lower :: "string \<Rightarrow> string" where
  "py_lower s = map py_lower_char s"

text \<open>
  The first recommendation for a malicious URL starts with the warning sign U+26A0 U+FE0F,
  which is outside the character range of the model; it is written as its UTF-8 bytes.
\<close>

definition warning_sign :: string where
  "warning_sign = [char_of (226::nat), char_of (154::nat), char_of (160::nat),
                   char_of (239::nat), char_of (184::nat), char_of (143::nat)]"

definition generate_recommendations :: "assessment \<Rightarrow> string list \<Rightarrow> string list" where
  "generate_recommendations level inds =
     (case level of
        SAFE \<Rightarrow> [''URL appears safe to visit'', ''Standard security practices still apply'']
      | SUSPICIOUS \<Rightarrow>
          [''Exercise caution when visiting this URL'',
           ''Verify the website's legitimacy before entering sensitive information'',
           ''Check for typos in the domain name'',
           ''Look for HTTPS and valid SSL certificate'']
      | MALICIOUS \<Rightarrow>
          [warning_sign @ '' DO NOT visit this URL'',
           ''This URL has been flagged as malicious by security services'',
           ''Do not enter any personal or financial information'',
           ''Report this URL if you received it in an email or message''])
     @ (if list_ex (py_in ''IP address'') inds
        then [''Uses IP address instead of domain - potentially suspicious''] else [])
     @ (if list_ex (py_in ''HTTPS'') inds
        then [''Consider only visiting websites that use HTTPS''] else [])
     @ (if list_ex (\<lambda>i. py_in ''redirect'' (py_lower i)) inds
        then [''URL may attempt to redirect to a different site''] else [])"

definition calculate_confidence :: "api_results \<Rightarrow> confidence_level" where
  "calculate_confidence a =
     (let apis_checked = get_apis_checked a; apis_flagged0 = get_apis_flagged a
      in if apis_checked \<ge> 2 \<and> (apis_flagged0 = apis_checked \<or> apis_flagged0 = 0) then HIGH
         else if apis_checked \<ge> 2 then MEDIUM
         else if apis_checked = 1 then LOW
         else VERY_LOW)"

definition calculate_risk_score :: "api_results \<Rightarrow> 'f feature_results \<Rightarrow> risk_score" where
  "calculate_risk_score a fr =
     (let api = calculate_api_score a;
          feat = (case feature_risk_score fr of None \<Rightarrow> 0 | Some v \<Rightarrow> v);
          final = api * WEIGHT_api_score + feat * WEIGHT_feature_score;
          level = determine_risk_level final;
          inds = collect_threat_indicators a fr;
          recs = generate_recommendations level inds
      in \<lparr>final_score = py_round2 final,
          risk_level = level,
          api_score = py_round2 api,
          feature_score = py_round2 feat,
          api_contribution = py_round2 (api * WEIGHT_api_score),
          feature_contribution = py_round2 (feat * WEIGHT_feature_score),
          all_threat_indicators = inds,
          recommendations = recs,
          confidence = calculate_confidence a\<rparr>)"

section \<open>Strings\<close>

text \<open>
  Character classes of Python on code points below 256: \<^verbatim>\<open>str.isspace\<close>,
  \<^verbatim>\<open>str.isdigit\<close> (which holds of the superscripts 1, 2 and 3 as well), and the
  classes \<^verbatim>\<open>[0-9]\<close> (also \<^verbatim>\<open>\d\<close>, which matches no other code point below 256),
  \<^verbatim>\<open>[a-zA-Z]\<close> and \<^verbatim>\<open>[a-zA-Z0-9]\<close> of the regular expressions.
\<close>

definition py_isspace :: "char \<Rightarrow> bool" where
  "py_isspace c =
     (let n = (of_char c :: nat)
      in (9 \<le> n \<and> n \<le> 13) \<or> (28 \<le> n \<and> n \<le> 32) \<or> n = 133 \<or> n = 160)"

definition re_digit :: "char \<Rightarrow> bool" where
  "re_digit c = (let n = (of_char c :: nat) in 48 \<le> n \<and> n \<le> 57)"

definition py_isdigit :: "char \<Rightarrow> bool" where
  "py_isdigit c = (let n = (of_char c :: nat) in re_digit c \<or> n = 178 \<or> n = 179 \<or> n = 185)"

definition re_alpha :: "char \<Rightarrow> bool" where
  "re_alpha c = (let n = (of_char c :: nat) in (65 \<le> n \<and> n \<le> 90) \<or> (97 \<le> n \<and> n \<le> 122))"

definition re_alnum :: "char \<Rightarrow> bool" where
  "re_alnum c = (re_alpha c \<or> re_digit c)"

text \<open>\<^verbatim>\<open>s.strip()\<close>, \<^verbatim>\<open>s.find(c)\<close> (\<open>-1\<close> when \<open>c\<close> does not occur),
  \<^verbatim>\<open>s.rfind(c)\<close>, \<^verbatim>\<open>s.split(c)\<close> and \<^verbatim>\<open>s.split(c, 1)\<close>.\<close>

definition py_strip :: "string \<Rightarrow> string" where
  "py_strip s = rev (dropWhile py_isspace (rev (dropWhile py_isspace s)))"

fun py_find :: "char \<Rightarrow> string \<Rightarrow> int" where
  "py_find c [] = - 1"
| "py_find c (x # xs) = (if x = c then 0 else (let k = py_find c xs in if k < 0 then - 1 else k + 1))"

definition py_rfind :: "char \<Rightarrow> string \<Rightarrow> int" where
  "py_rfind c s = (let k = py_find c (rev s) in if k < 0 then - 1 else int (length s) - 1 - k)"

fun py_split :: "char \<Rightarrow> string \<Rightarrow> string list" where
  "py_split c [] = [[]]"
| "py_split c (x # xs) =
     (if x = c then [] # py_split c xs
      else (case py_split c xs of [] \<Rightarrow> [[x]] | p # ps \<Rightarrow> (x # p) # ps))"

definition split_once :: "char \<Rightarrow> string \<Rightarrow> string \<times> string" where
  "split_once c s = (takeWhile (\<lambda>x. x \<noteq> c) s, drop 1 (dropWhile (\<lambda>x. x \<noteq> c) s))"

section \<open>The standard library: urllib.parse.urlparse\<close>

text \<open>
  \<^verbatim>\<open>urlparse\<close> is the function of CPython 3.11's \<^verbatim>\<open>urllib/parse.py\<close>, followed line
  by line. Two of its checks depend on tables outside that file:
  \<^item> \<^verbatim>\<open>_check_bracketed_host\<close> asks the \<^verbatim>\<open>ipaddress\<close> module whether the text between
    square brackets is an IPv6 or IPvFuture address. It is a parameter \<open>chk\<close>: the
    message of the \<^verbatim>\<open>ValueError\<close> it raises, or \<open>None\<close> when it accepts.
  \<^item> \<^verbatim>\<open>_checknetloc\<close> raises when a character of the host becomes one of
    \<^verbatim>\<open>/?#@:\<close> under NFKC normalisation. No code point below 256 does, so on the strings
    of this model it never raises.
\<close>

datatype py_exception = ValueError string

record parse_result =
  scheme :: string
  netloc :: string
  path :: string
  params :: string
  query :: string
  fragment :: string

definition scheme_chars :: string where
  "scheme_chars = ''abcdefghijklmnopqrstuvwxyzABCDEFGHIJKLMNOPQRSTUVWXYZ0123456789+-.''"

definition uses_params :: "string list" where
  "uses_params = ['''', ''ftp'', ''hdl'', ''prospero'', ''http'', ''imap'', ''https'', ''shttp'',
     ''rtsp'', ''rtsps'', ''rtspu'', ''sip'', ''sips'', ''mms'', ''sftp'', ''tel'']"

text \<open>A C0 control character or a space, stripped from the left of the URL.\<close>

definition c0_control_or_space :: "char \<Rightarrow> bool" where
  "c0_control_or_space c = ((of_char c :: nat) \<le> 32)"

text \<open>Tab, carriage return and line feed are removed from the URL wherever they are.\<close>

definition unsafe_url_byte :: "char \<Rightarrow> bool" where
  "unsafe_url_byte c = (let n = (of_char c :: nat) in n = 9 \<or> n = 13 \<or> n = 10)"

text \<open>The scheme is split off when the text before the first colon is not empty, starts
  with an ASCII letter and consists of scheme characters.\<close>

definition split_scheme :: "string \<Rightarrow> string \<times> string" where
  "split_scheme url =
     (let i = py_find CHR '':'' url
      in if i > 0 \<and> (case url of [] \<Rightarrow> False | c # _ \<Rightarrow> re_alpha c)
            \<and> list_all (\<lambda>c. c \<in> set scheme_chars) (take (nat i) url)
         then (py_lower (take (nat i) url), drop (nat i + 1) url)
         else ('''', url))"

text \<open>\<^verbatim>\<open>_splitnetloc(url, 2)\<close>: the host part runs from position 2 to the first of
  \<^verbatim>\<open>/\<close>, \<^verbatim>\<open>?\<close>, \<^verbatim>\<open>#\<close>, or to the end.\<close>

definition netloc_delim :: "char \<Rightarrow> bool" where
  "netloc_delim c = (c = CHR ''/'' \<or> c = CHR ''?'' \<or> c = CHR ''#'')"

definition splitnetloc :: "string \<Rightarrow> string \<times> string" where
  "splitnetloc url =
     (takeWhile (\<lambda>c. \<not> netloc_delim c) (drop 2 url), dropWhile (\<lambda>c. \<not> netloc_delim c) (drop 2 url))"

text \<open>\<^verbatim>\<open>netloc.partition('[')[2].partition(']')[0]\<close>.\<close>

definition bracketed_host :: "string \<Rightarrow> string" where
  "bracketed_host nl =
     takeWhile (\<lambda>c. c \<noteq> CHR '']'') (drop 1 (dropWhile (\<lambda>c. c \<noteq> CHR ''['') nl))"

definition urlsplit :: "(string \<Rightarrow> string option) \<Rightarrow> string \<Rightarrow> py_exception + parse_result" where
  "urlsplit chk url0 =
     (let url1 = dropWhile c0_control_or_space url0;
          url2 = filter (\<lambda>c. \<not> unsafe_url_byte c) url1;
          (sch, url3) = split_scheme url2;
          (nl, url4) = (if take 2 url3 = ''//'' then splitnetloc url3 else ('''', url3));
          (url5, frag) = (if CHR ''#'' \<in> set url4 then split_once CHR ''#'' url4 else (url4, ''''));
          (url6, qry) = (if CHR ''?'' \<in> set url5 then split_once CHR ''?'' url5 else (url5, ''''))
      in if take 2 url3 = ''//'' \<and>
            ((CHR ''['' \<in> set nl \<and> CHR '']'' \<notin> set nl) \<or> (CHR '']'' \<in> set nl \<and> CHR ''['' \<notin> set nl))
         then Inl (ValueError ''Invalid IPv6 URL'')
         else if take 2 url3 = ''//'' \<and> CHR ''['' \<in> set nl \<and> CHR '']'' \<in> set nl
                 \<and> chk (bracketed_host nl) \<noteq> None
         then Inl (ValueError (the (chk (bracketed_host nl))))
         else Inr \<lparr>scheme = sch, netloc = nl, path = url6, params = '''', query = qry, fragment = frag\<rparr>)"

definition splitparams :: "string \<Rightarrow> string \<times> string" where
  "splitparams url =
     (if CHR ''/'' \<in> set url then
        (let r = nat (py_rfind CHR ''/'' url);
             j = py_find CHR '';'' (drop r url)
         in if j < 0 then (url, '''')
            else (take (r + nat j) url, drop (r + nat j + 1) url))
      else
        (let i = nat (py_find CHR '';'' url) in (take i url, drop (i + 1) url)))"

definition urlparse :: "(string \<Rightarrow> string option) \<Rightarrow> string \<Rightarrow> py_exception + parse_result" where
  "urlparse chk url =
     (case urlsplit chk url of
        Inl e \<Rightarrow> Inl e
      | Inr sp \<Rightarrow>
          (if scheme sp \<in> set uses_params \<and> CHR '';'' \<in> set (path sp)
           then (case splitparams (path sp) of (u, ps) \<Rightarrow> Inr (sp\<lparr>path := u, params := ps\<rparr>))
           else Inr sp))"

section \<open>utils/validators.py\<close>

definition normalize_url :: "string \<Rightarrow> string" where
  "normalize_url url0 =
     (let url = py_strip url0
      in if \<not> (startswith url ''http://'' \<or> startswith url ''https://'')
         then ''http://'' @ url else url)"

text \<open>
  The two patterns of \<^verbatim>\<open>is_valid_domain\<close> are applied with \<^verbatim>\<open>re.match\<close>, anchored by
  \<^verbatim>\<open>^\<close> and \<^verbatim>\<open>$\<close>; \<^verbatim>\<open>$\<close> also matches just before a line feed that ends the string
  (\<open>re_dollar\<close>). Neither pattern has a dot inside a label, so a string matches when
  its pieces between the dots do:
  \<^item> \<^verbatim>\<open>[a-zA-Z0-9](?:[a-zA-Z0-9-]{0,61}[a-zA-Z0-9])?\<close> is \<open>re_label\<close>: one
    alphanumeric, or 2 to 63 characters, the first and the last alphanumeric, the others
    alphanumeric or a hyphen;
  \<^item> \<^verbatim>\<open>^(?:label\.)+[a-zA-Z]{2,}$\<close> is \<open>match_domain_pattern\<close>: at least one label and a
    last piece of 2 or more letters;
  \<^item> \<^verbatim>\<open>^(?:[0-9]{1,3}\.){3}[0-9]{1,3}$\<close> is \<open>match_ip_pattern\<close>: four pieces of 1 to
    3 digits.
\<close>

definition re_dollar :: "(string \<Rightarrow> bool) \<Rightarrow> string \<Rightarrow> bool" where
  "re_dollar P s = (P s \<or> (s \<noteq> [] \<and> last s = char_of (10::nat) \<and> P (butlast s)))"

definition re_label :: "string \<Rightarrow> bool" where
  "re_label l =
     (case l of
        [] \<Rightarrow> False
      | [c] \<Rightarrow> re_alnum c
      | c # cs \<Rightarrow> re_alnum c \<and> re_alnum (last cs) \<and> length cs \<le> 62
                 \<and> list_all (\<lambda>x. re_alnum x \<or> x = CHR ''-'') (butlast cs))"

definition match_domain_pattern :: "string \<Rightarrow> bool" where
  "match_domain_pattern = re_dollar (\<lambda>s.
     (let parts = py_split CHR ''.'' s
      in length parts \<ge> 2 \<and> list_all re_label (butlast parts)
         \<and> length (last parts) \<ge> 2 \<and> list_all re_alpha (last parts)))"

definition digits_1_3 :: "string \<Rightarrow> bool" where
  "digits_1_3 s = (1 \<le> length s \<and> length s \<le> 3 \<and> list_all re_digit s)"

definition match_ip_pattern :: "string \<Rightarrow> bool" where
  "match_ip_pattern = re_dollar (\<lambda>s.
     (let parts = py_split CHR ''.'' s in length parts = 4 \<and> list_all digits_1_3 parts))"

definition is_valid_domain :: "string \<Rightarrow> bool" where
  "is_valid_domain domain0 =
     (let domain = (if CHR '':'' \<in> set domain0 then hd (py_split CHR '':'' domain0) else domain0)
      in if match_domain_pattern domain \<or> match_ip_pattern domain then
           (if length domain > 253 then False
            else if list_ex (\<lambda>label. length label > 63) (py_split CHR ''.'' domain) then False
            else True)
         else False)"

text \<open>
  \<^verbatim>\<open>validate_url\<close> returns the triple (valid, normalized URL, error message). The result
  of \<^verbatim>\<open>has_suspicious_patterns\<close> is computed and dropped by the source (the branch is
  \<^verbatim>\<open>pass\<close>), so it does not appear here.
\<close>

definition validate_url :: "(string \<Rightarrow> string option) \<Rightarrow> string \<Rightarrow> bool \<times> string \<times> string" where
  "validate_url chk url0 =
     (if url0 = [] then (False, '''', ''URL cannot be empty'')
      else
        (let url = py_strip url0
         in if url = [] then (False, '''', ''URL cannot be empty'')
            else
              (let normalized = normalize_url url
               in case urlparse chk normalized of
                    Inl (ValueError msg) \<Rightarrow> (False, '''', ''Invalid URL format: '' @ msg)
                  | Inr parsed \<Rightarrow>
                      (if scheme parsed \<notin> set [''http'', ''https'']
                       then (False, '''', ''URL must use http or https protocol'')
                       else if netloc parsed = []
                       then (False, '''', ''URL must contain a valid domain'')
                       else if \<not> is_valid_domain (netloc parsed)
                       then (False, '''', ''Invalid domain format'')
                       else (True, normalized, '''')))))"

section \<open>models/url\_features.py\<close>

text \<open>
  The feature dictionary is put together from the dictionaries of six extractors, whose
  keys are distinct. Each extractor returns a record, and the whole dictionary is the
  record of the six parts, so \<^verbatim>\<open>features['is_ip_address']\<close> is
  \<open>is_ip_address (by_domain f)\<close>. An entry that is 0 or 1 in the source is an \<open>int\<close>
  here as well.

  \<^verbatim>\<open>tldextract.extract\<close> is a third-party function that consults the public suffix list.
  It is a parameter \<open>ext\<close>: the triple (subdomain, domain, suffix) for a URL, or \<open>None\<close>
  when the call raises, which the source catches.
\<close>

text \<open>\<^verbatim>\<open>str.isalpha\<close>, \<^verbatim>\<open>str.isalnum\<close> and \<^verbatim>\<open>str.isupper\<close> on code points below 256.\<close>

definition py_isalpha :: "char \<Rightarrow> bool" where
  "py_isalpha c =
     (let n = (of_char c :: nat)
      in re_alpha c \<or> n = 170 \<or> n = 181 \<or> n = 186 \<or> (192 \<le> n \<and> n \<le> 214)
         \<or> (216 \<le> n \<and> n \<le> 246) \<or> (248 \<le> n \<and> n \<le> 255))"

definition py_isalnum :: "char \<Rightarrow> bool" where
  "py_isalnum c =
     (let n = (of_char c :: nat)
      in py_isalpha c \<or> py_isdigit c \<or> (188 \<le> n \<and> n \<le> 190))"

definition py_isupper :: "char \<Rightarrow> bool" where
  "py_isupper c =
     (let n = (of_char c :: nat)
      in (65 \<le> n \<and> n \<le> 90) \<or> (192 \<le> n \<and> n \<le> 214) \<or> (216 \<le> n \<and> n \<le> 222))"

text \<open>\<^verbatim>\<open>sum(p(c) for c in url)\<close>, \<^verbatim>\<open>url.count(c)\<close> and \<^verbatim>\<open>max(xs, default=0)\<close>.\<close>

definition count_where :: "(char \<Rightarrow> bool) \<Rightarrow> string \<Rightarrow> int" where
  "count_where p url = int (length (filter p url))"

definition py_count :: "char \<Rightarrow> string \<Rightarrow> int" where
  "py_count c url = int (length (filter (\<lambda>x. x = c) url))"

definition max_default0 :: "nat list \<Rightarrow> int" where
  "max_default0 xs = (case xs of [] \<Rightarrow> 0 | x # rest \<Rightarrow> int (fold max rest x))"

record length_features =
  url_length :: int
  domain_length :: int
  path_length :: int
  query_length :: int
  fragment_length :: int

definition extract_length_features :: "string \<Rightarrow> parse_result \<Rightarrow> length_features" where
  "extract_length_features url parsed =
     \<lparr>url_length = int (length url),
      domain_length = int (length (netloc parsed)),
      path_length = int (length (path parsed)),
      query_length = (if query parsed \<noteq> [] then int (length (query parsed)) else 0),
      fragment_length = (if fragment parsed \<noteq> [] then int (length (fragment parsed)) else 0)\<rparr>"

record character_features =
  digit_count :: int
  letter_count :: int
  special_char_count :: int
  dash_count :: int
  underscore_count :: int
  dot_count :: int
  slash_count :: int
  question_mark_count :: int
  equal_count :: int
  at_count :: int
  ampersand_count :: int
  percent_count :: int
  uppercase_count :: int
  digit_ratio :: real

definition extract_character_features :: "string \<Rightarrow> character_features" where
  "extract_character_features url =
     \<lparr>digit_count = count_where py_isdigit url,
      letter_count = count_where py_isalpha url,
      special_char_count = count_where (\<lambda>c. \<not> py_isalnum c) url,
      dash_count = py_count CHR ''-'' url,
      underscore_count = py_count CHR ''_'' url,
      dot_count = py_count CHR ''.'' url,
      slash_count = py_count CHR ''/'' url,
      question_mark_count = py_count CHR ''?'' url,
      equal_count = py_count CHR ''='' url,
      at_count = py_count CHR ''@'' url,
      ampersand_count = py_count CHR ''&'' url,
      percent_count = py_count CHR ''%'' url,
      uppercase_count = count_where py_isupper url,
      digit_ratio = (if length url > 0
                     then real_of_int (count_where py_isdigit url) / real (length url) else 0)\<rparr>"

record domain_features =
  subdomain_count :: int
  subdomain_length :: int
  domain_name_length :: int
  tld_length :: int
  is_ip_address :: int
  has_port :: int
  tld_in_path :: int
  tld_in_subdomain :: int

text \<open>\<^verbatim>\<open>re.match(r'^\d{1,3}\.\d{1,3}\.\d{1,3}\.\d{1,3}$', domain)\<close> is the pattern of
  \<open>match_ip_pattern\<close>. When \<^verbatim>\<open>tldextract.extract\<close> raises, the subdomain and the suffix
  are empty and the domain name is the host.\<close>

definition extract_domain_features ::
  "(string \<Rightarrow> (string \<times> string \<times> string) option) \<Rightarrow> string \<Rightarrow> parse_result \<Rightarrow> domain_features" where
  "extract_domain_features ext url parsed =
     (let domain = netloc parsed;
          (subdomain, domain_name, tld) =
             (case ext url of None \<Rightarrow> ('''', domain, '''') | Some extracted \<Rightarrow> extracted);
          is_ip = match_ip_pattern domain
      in \<lparr>subdomain_count =
            (if subdomain \<noteq> [] then int (length (py_split CHR ''.'' subdomain)) else 0),
          subdomain_length = int (length subdomain),
          domain_name_length = int (length domain_name),
          tld_length = int (length tld),
          is_ip_address = (if is_ip then 1 else 0),
          has_port = (if CHR '':'' \<in> set domain then 1 else 0),
          tld_in_path = (if tld \<noteq> [] \<and> py_in tld (path parsed) then 1 else 0),
          tld_in_subdomain = (if tld \<noteq> [] \<and> py_in tld subdomain then 1 else 0)\<rparr>)"

record path_features =
  path_segment_count :: int
  query_param_count :: int
  has_query :: int
  has_fragment :: int
  max_path_segment_length :: int
  avg_path_segment_length :: real

definition extract_path_features :: "parse_result \<Rightarrow> path_features" where
  "extract_path_features parsed =
     (let path_segments = filter (\<lambda>p. p \<noteq> []) (py_split CHR ''/'' (path parsed));
          query_params = (if query parsed \<noteq> [] then py_split CHR ''&'' (query parsed) else [])
      in \<lparr>path_segment_count = int (length path_segments),
          query_param_count = int (length query_params),
          has_query = (if query parsed \<noteq> [] then 1 else 0),
          has_fragment = (if fragment parsed \<noteq> [] then 1 else 0),
          max_path_segment_length = max_default0 (map length path_segments),
          avg_path_segment_length =
            (if path_segments \<noteq> []
             then real (sum_list (map length path_segments)) / real (length path_segments)
             else 0)\<rparr>)"

text \<open>The lengths of the matches of \<^verbatim>\<open>re.finditer(r'\d+', url)\<close> and of
  \<^verbatim>\<open>re.finditer(r'[a-zA-Z]+', url)\<close>: the maximal runs of characters of the class, from
  left to right. The third argument is the length of the run being read.\<close>

fun run_lengths :: "(char \<Rightarrow> bool) \<Rightarrow> string \<Rightarrow> nat \<Rightarrow> nat list" where
  "run_lengths p [] n = (if n > 0 then [n] else [])"
| "run_lengths p (c # cs) n =
     (if p c then run_lengths p cs (n + 1)
      else (if n > 0 then [n] else []) @ run_lengths p cs 0)"

definition suspicious_keywords :: "string list" where
  "suspicious_keywords =
     [''login'', ''signin'', ''account'', ''update'', ''confirm'', ''verify'',
      ''secure'', ''banking'', ''paypal'', ''amazon'', ''apple'', ''microsoft'',
      ''password'', ''suspended'', ''locked'', ''unusual'']"

definition keyword_count :: "string \<Rightarrow> int" where
  "keyword_count url = int (length (filter (\<lambda>keyword. py_in keyword (py_lower url)) suspicious_keywords))"

record pattern_features =
  has_double_slash_in_path :: int
  has_at_symbol :: int
  has_dash_in_domain :: int
  max_consecutive_digits :: int
  max_consecutive_letters :: int
  suspicious_keyword_count :: int
  has_https :: int

definition extract_pattern_features :: "string \<Rightarrow> parse_result \<Rightarrow> pattern_features" where
  "extract_pattern_features url parsed =
     \<lparr>has_double_slash_in_path = (if py_in ''//'' (path parsed) then 1 else 0),
      has_at_symbol = (if CHR ''@'' \<in> set url then 1 else 0),
      has_dash_in_domain = (if CHR ''-'' \<in> set (netloc parsed) then 1 else 0),
      max_consecutive_digits = max_default0 (run_lengths re_digit url 0),
      max_consecutive_letters = max_default0 (run_lengths re_alpha url 0),
      suspicious_keyword_count = keyword_count url,
      has_https = (if scheme parsed = ''https'' then 1 else 0)\<rparr>"

text \<open>
  \<^verbatim>\<open>calculate_entropy\<close>: the frequency dictionary keeps its keys in the order of their
  first occurrence, so it is an association list; the second loop runs over its values.
\<close>

fun count_char :: "char \<Rightarrow> (char \<times> nat) list \<Rightarrow> (char \<times> nat) list" where
  "count_char c [] = [(c, 1)]"
| "count_char c ((k, n) # freq) = (if k = c then (k, n + 1) # freq else (k, n) # count_char c freq)"

definition char_frequencies :: "string \<Rightarrow> (char \<times> nat) list" where
  "char_frequencies text = foldl (\<lambda>freq c. count_char c freq) [] text"

definition calculate_entropy :: "string \<Rightarrow> real" where
  "calculate_entropy text =
     (if text = [] then 0
      else foldl (\<lambda>entropy count.
                    (let probability = real count / real (length text)
                     in entropy - probability * log 2 probability))
                 0 (map snd (char_frequencies text)))"

record entropy_features =
  url_entropy :: real
  domain_entropy :: real
  path_entropy :: real

text \<open>\<^verbatim>\<open>extract_entropy_features\<close> parses the URL itself; a \<^verbatim>\<open>ValueError\<close> of \<^verbatim>\<open>urlparse\<close>
  is not caught.\<close>

definition extract_entropy_features :: "(string \<Rightarrow> string option) \<Rightarrow> string \<Rightarrow> py_exception + entropy_features" where
  "extract_entropy_features chk url =
     (case urlparse chk url of
        Inl e \<Rightarrow> Inl e
      | Inr parsed \<Rightarrow>
          Inr \<lparr>url_entropy = calculate_entropy url,
               domain_entropy = calculate_entropy (netloc parsed),
               path_entropy = (if path parsed \<noteq> [] then calculate_entropy (path parsed) else 0)\<rparr>)"

record url_features =
  by_length :: length_features
  by_character :: character_features
  by_domain :: domain_features
  by_path :: path_features
  by_pattern :: pattern_features
  by_entropy :: entropy_features

definition extract_all_features ::
  "(string \<Rightarrow> string option) \<Rightarrow> (string \<Rightarrow> (string \<times> string \<times> string) option) \<Rightarrow> string
     \<Rightarrow> py_exception + url_features" where
  "extract_all_features chk ext url =
     (case urlparse chk url of
        Inl e \<Rightarrow> Inl e
      | Inr parsed \<Rightarrow>
          (case extract_entropy_features chk url of
             Inl e \<Rightarrow> Inl e
           | Inr entropy \<Rightarrow>
               Inr \<lparr>by_length = extract_length_features url parsed,
                    by_character = extract_character_features url,
                    by_domain = extract_domain_features ext url parsed,
                    by_path = extract_path_features parsed,
                    by_pattern = extract_pattern_features url parsed,
                    by_entropy = entropy\<rparr>))"

text \<open>
  One risk rule of \<^verbatim>\<open>analyze_url_features\<close>: when its condition holds, the increment is
  added to the score and the factor is appended. The eight rules run in the order of the
  source.
\<close>

definition risk_rule :: "bool \<Rightarrow> int \<Rightarrow> string \<Rightarrow> int \<times> string list \<Rightarrow> int \<times> string list" where
  "risk_rule cond increment factor acc =
     (if cond then (fst acc + increment, snd acc @ [factor]) else acc)"

definition risk_rules :: "url_features \<Rightarrow> int \<times> string list" where
  "risk_rules f =
     (let a0 = (0, []);
          a1 = risk_rule (url_length (by_length f) > 75) 10 ''Unusually long URL'' a0;
          a2 = risk_rule (is_ip_address (by_domain f) \<noteq> 0) 20
                 ''Uses IP address instead of domain name'' a1;
          a3 = risk_rule (has_at_symbol (by_pattern f) \<noteq> 0) 25
                 ''Contains @ symbol (possible redirect)'' a2;
          a4 = risk_rule (subdomain_count (by_domain f) > 3) 15 ''Excessive subdomains'' a3;
          a5 = risk_rule (suspicious_keyword_count (by_pattern f) > 2) 15
                 ''Contains multiple suspicious keywords'' a4;
          a6 = risk_rule (digit_ratio (by_character f) > 3 / 10) 10 ''High proportion of digits'' a5;
          a7 = risk_rule (\<not> (has_https (by_pattern f) \<noteq> 0)) 5 ''Not using HTTPS'' a6;
          a8 = risk_rule (url_entropy (by_entropy f) > 5) 10 ''High entropy (random-looking URL)'' a7
      in a8)"

text \<open>\<^verbatim>\<open>len(features)\<close> is the number of keys of the six dictionaries together,
  5 + 14 + 8 + 6 + 7 + 3.\<close>

definition analyze_url_features ::
  "(string \<Rightarrow> string option) \<Rightarrow> (string \<Rightarrow> (string \<times> string \<times> string) option) \<Rightarrow> string
     \<Rightarrow> py_exception + url_features feature_results" where
  "analyze_url_features chk ext url =
     (case extract_all_features chk ext url of
        Inl e \<Rightarrow> Inl e
      | Inr f \<Rightarrow>
          (case risk_rules f of (risk, factors) \<Rightarrow>
             Inr \<lparr>features = Some f,
                  feature_risk_score = Some (real_of_int (min risk 100)),
                  risk_factors = Some factors,
                  total_features = Some (5 + 14 + 8 + 6 + 7 + 3)\<rparr>))"

section \<open>services/scorer.py: the report\<close>

datatype formatted_result = Unavailable string | Checked bool provider_result

text \<open>\<^verbatim>\<open>_format_api_result\<close>; the details are the entries other than \<^verbatim>\<open>available\<close> and
  \<^verbatim>\<open>error\<close>.\<close>

definition format_api_result :: "provider_result \<Rightarrow> formatted_result" where
  "format_api_result r =
     (if \<not> is_available r
      then Unavailable (case error r of None \<Rightarrow> ''Service unavailable'' | Some msg \<Rightarrow> msg)
      else Checked (case safe r of None \<Rightarrow> True | Some b \<Rightarrow> b) (r\<lparr>available := None, error := None\<rparr>))"

record key_features =
  key_url_length :: int
  key_domain_length :: int
  key_subdomain_count :: int
  uses_https :: bool
  key_is_ip_address :: bool
  suspicious_keywords_found :: int
  key_url_entropy :: real

text \<open>\<^verbatim>\<open>_extract_key_features\<close>, with the defaults of a missing feature dictionary.\<close>

definition extract_key_features :: "url_features feature_results \<Rightarrow> key_features" where
  "extract_key_features fr =
     (case features fr of
        None \<Rightarrow> \<lparr>key_url_length = 0, key_domain_length = 0, key_subdomain_count = 0,
                 uses_https = False, key_is_ip_address = False, suspicious_keywords_found = 0,
                 key_url_entropy = py_round2 0\<rparr>
      | Some f \<Rightarrow> \<lparr>key_url_length = url_length (by_length f),
                   key_domain_length = domain_length (by_length f),
                   key_subdomain_count = subdomain_count (by_domain f),
                   uses_https = (has_https (by_pattern f) \<noteq> 0),
                   key_is_ip_address = (is_ip_address (by_domain f) \<noteq> 0),
                   suspicious_keywords_found = suspicious_keyword_count (by_pattern f),
                   key_url_entropy = py_round2 (url_entropy (by_entropy f))\<rparr>)"

record analysis =
  url :: string
  score :: real
  level :: assessment
  report_confidence :: confidence_level
  report_api_score :: real
  report_feature_score :: real
  breakdown :: "real \<times> real"
  threat_count :: int
  threat_list :: "string list"
  google_check :: formatted_result
  virustotal_check :: formatted_result
  urlhaus_check :: formatted_result
  checks_summary :: "api_summary option"
  features_analyzed :: int
  key :: key_features
  report_risk_factors :: "string list"
  report_recommendations :: "string list"

definition get_detailed_analysis ::
  "string \<Rightarrow> api_results \<Rightarrow> url_features feature_results \<Rightarrow> risk_score \<Rightarrow> analysis" where
  "get_detailed_analysis u a fr rs =
     \<lparr>url = u,
      score = final_score rs,
      level = risk_level rs,
      report_confidence = confidence rs,
      report_api_score = api_score rs,
      report_feature_score = feature_score rs,
      breakdown = (api_contribution rs, feature_contribution rs),
      threat_count = int (length (all_threat_indicators rs)),
      threat_list = all_threat_indicators rs,
      google_check = format_api_result (google_safe_browsing a),
      virustotal_check = format_api_result (virustotal a),
      urlhaus_check = format_api_result (urlhaus a),
      checks_summary = summary a,
      features_analyzed = (case total_features fr of None \<Rightarrow> 0 | Some n \<Rightarrow> n),
      key = extract_key_features fr,
      report_risk_factors = (case risk_factors fr of None \<Rightarrow> [] | Some rs \<Rightarrow> rs),
      report_recommendations = recommendations rs\<rparr>"

definition get_complete_analysis :: "string \<Rightarrow> api_results \<Rightarrow> url_features feature_results \<Rightarrow> analysis" where
  "get_complete_analysis u a fr = get_detailed_analysis u a fr (calculate_risk_score a fr)"

section \<open>main.py: the scan entry point\<close>

text \<open>
  What lies outside the program is gathered in one record: the two library checks of
  the sections above and, for each URL, what the three provider calls settle to.

  \<^verbatim>\<open>scan_url\<close> returns the response together with the list of the components it has
  invoked after validation, in order. An exception that no handler of the program catches
  leaves \<^verbatim>\<open>scan_url\<close> and is the response \<open>Unhandled\<close>.
\<close>

record world =
  check_bracketed_host :: "string \<Rightarrow> string option"
  tldextract :: "string \<Rightarrow> (string \<times> string \<times> string) option"
  providers :: "string \<Rightarrow> outcome \<times> outcome \<times> outcome"

datatype component = Aggregator | Feature_extractor | Fusion_engine

datatype response = Error_response string | Report analysis | Unhandled py_exception

definition scan_url :: "world \<Rightarrow> string \<Rightarrow> response \<times> component list" where
  "scan_url w request_url =
     (case validate_url (check_bracketed_host w) request_url of
        (is_valid, normalized_url, err) \<Rightarrow>
          (if \<not> is_valid then (Error_response err, [])
           else
             (let api = check_all_apis (providers w normalized_url)
              in case analyze_url_features (check_bracketed_host w) (tldextract w) normalized_url of
                   Inl e \<Rightarrow> (Unhandled e, [Aggregator, Feature_extractor])
                 | Inr fr \<Rightarrow>
                     (Report (get_complete_analysis normalized_url api fr),
                      [Aggregator, Feature_extractor, Fusion_engine]))))"

section \<open>The entropy of the specification\<close>

text \<open>
  The specification names the Shannon entropy in base 2 of a string, and defines the
  entropy of the empty string as 0. Written after the specification, not after the
  code: with \<open>p c\<close> the share of the character \<open>c\<close> among the characters of the
  string, the entropy is the negated sum of \<open>p c * log 2 (p c)\<close> over the characters
  that occur.
\<close>

definition shannon_entropy :: "string \<Rightarrow> real" where
  "shannon_entropy s =
     (if s = [] then 0
      else - (\<Sum>c\<in>set s. (real (count_list s c) / real (length s))
                          * log 2 (real (count_list s c) / real (length s))))"

section \<open>Example inputs\<close>

text \<open>A provider result that flags the URL, one that marks it safe, and the settled
  results of a scan in which two providers flag the URL and the third call fails.\<close>

definition flagging :: provider_result where
  "flagging = \<lparr>available = Some True, safe = Some False, threats = Some [''MALWARE''],
     malicious_count = Some 3, threat_type = Some ''malware_download'', error = None\<rparr>"

definition clean :: provider_result where
  "clean = \<lparr>available = Some True, safe = Some True, threats = Some [],
     malicious_count = Some 0, threat_type = None, error = None\<rparr>"

definition two_of_three_flag :: api_results where
  "two_of_three_flag = check_all_apis (Returned flagging, Returned flagging, Raised ''Request timed out'')"

text \<open>A world without network and without library tables: the bracket check refuses
  every host, \<^verbatim>\<open>tldextract\<close> raises, one provider has no key and two calls time out.
  And an input of white space only.\<close>

definition offline :: world where
  "offline = \<lparr>check_bracketed_host = (\<lambda>h. Some ''IPvFuture address is invalid''),
              tldextract = (\<lambda>u. None),
              providers = (\<lambda>u. (Returned \<lparr>available = Some False, safe = None, threats = None,
                                   malicious_count = None, threat_type = None,
                                   error = Some ''API key not configured''\<rparr>,
                                 Raised ''Request timed out'', Raised ''Request timed out''))\<rparr>"

definition blank :: string where
  "blank = [CHR '' '', char_of (9::nat), CHR '' '', char_of (10::nat)]"

text \<open>The report of the scan of \<^verbatim>\<open>google.com\<close> in that world.\<close>

definition google_report :: analysis where
  "google_report =
     get_complete_analysis ''http://google.com''
       (check_all_apis (providers offline ''http://google.com''))
       (projr (analyze_url_features (check_bracketed_host offline) (tldextract offline)
                 ''http://google.com''))"

text \<open>The URL of the second scenario of the specification, a world in which the three
  providers answer and none flags the URL, and the risk level of a response.\<close>

definition scenario2_url :: string where
  "scenario2_url = ''http://192.168.1.1/login/verify/secure''"

definition all_clear :: world where
  "all_clear = \<lparr>check_bracketed_host = (\<lambda>h. Some ''IPvFuture address is invalid''),
                tldextract = (\<lambda>u. Some ('''', ''192.168.1.1'', '''')),
                providers = (\<lambda>u. (Returned clean, Returned clean, Returned clean))\<rparr>"

definition response_level :: "response \<Rightarrow> assessment option" where
  "response_level r = (case r of Report a \<Rightarrow> Some (level a) | _ \<Rightarrow> None)"

text \<open>A URL of 16 characters in which \<^verbatim>\<open>t\<close> occurs 3 times and \<^verbatim>\<open>/\<close> 4 times.\<close>

definition entropy_url :: string where
  "entropy_url = ''http://t.io/ab/c''"


section \<open>Properties of the rounding\<close>

lemma rhe_close: "\<bar>of_int (round_half_even x) - x\<bar> \<le> 1 / 2"
  unfolding round_half_even_def Let_def
  by (auto simp: abs_le_iff; linarith)

lemma py_round2_close: "\<bar>py_round2 x - x\<bar> \<le> 1 / 200"
proof -
  have "\<bar>of_int (round_half_even (x * 100)) - x * 100\<bar> \<le> 1 / 2" by (rule rhe_close)
  then show ?thesis unfolding py_round2_def by (simp add: abs_le_iff field_simps)
qed

lemma rhe_le: "x \<le> of_int m \<Longrightarrow> round_half_even x \<le> m"
  unfolding round_half_even_def Let_def
  by (auto; linarith)

lemma rhe_ge: "of_int m \<le> x \<Longrightarrow> m \<le> round_half_even x"
  unfolding round_half_even_def Let_def
  by (auto; linarith)

lemma py_round2_le: "x \<le> of_int n \<Longrightarrow> py_round2 x \<le> of_int n"
proof -
  assume "x \<le> of_int n"
  then have "x * 100 \<le> of_int (n * 100)" by simp
  then have "round_half_even (x * 100) \<le> n * 100" by (rule rhe_le)
  then have "real_of_int (round_half_even (x * 100)) \<le> real_of_int (n * 100)"
    by (simp only: of_int_le_iff)
  then show ?thesis by (simp add: py_round2_def field_simps)
qed

lemma py_round2_ge: "of_int n \<le> x \<Longrightarrow> of_int n \<le> py_round2 x"
proof -
  assume "of_int n \<le> x"
  then have "of_int (n * 100) \<le> x * 100" by simp
  then have "n * 100 \<le> round_half_even (x * 100)" by (rule rhe_ge)
  then have "real_of_int (n * 100) \<le> real_of_int (round_half_even (x * 100))"
    by (simp only: of_int_le_iff)
  then show ?thesis by (simp add: py_round2_def field_simps)
qed

text \<open>A score that is a multiple of 1/30 is on the same side of an integer threshold
  before and after rounding.\<close>

lemma py_round2_gt:
  assumes x: "x = of_int k / 30" and gt: "of_int n < x"
  shows "of_int n < py_round2 x"
proof -
  from x gt have "real_of_int (30 * n) < real_of_int k" by (simp add: field_simps)
  then have "30 * n < k" by (simp only: of_int_less_iff)
  then have "30 * n + 1 \<le> k" by simp
  then have "real_of_int (30 * n + 1) \<le> real_of_int k" by (simp only: of_int_le_iff)
  with x have "of_int (100 * n + 3) \<le> x * 100" by (simp add: field_simps)
  then have "100 * n + 3 \<le> round_half_even (x * 100)" by (rule rhe_ge)
  then have "real_of_int (100 * n + 3) \<le> real_of_int (round_half_even (x * 100))"
    by (simp only: of_int_le_iff)
  then show ?thesis by (simp add: py_round2_def field_simps)
qed

lemma py_round2_le_iff:
  assumes x: "x = of_int k / 30"
  shows "py_round2 x \<le> of_int n \<longleftrightarrow> x \<le> of_int n"
  using py_round2_le [of x n] py_round2_gt [OF x, of n] by fastforce

lemma level_matches_rounded:
  assumes x: "x = of_int k / 30"
  shows "(determine_risk_level x = SAFE \<longleftrightarrow> py_round2 x \<le> 30)
       \<and> (determine_risk_level x = SUSPICIOUS \<longleftrightarrow> 30 < py_round2 x \<and> py_round2 x \<le> 70)
       \<and> (determine_risk_level x = MALICIOUS \<longleftrightarrow> 70 < py_round2 x)"
  using py_round2_le_iff [OF x, of 30] py_round2_le_iff [OF x, of 70]
  by (auto simp: determine_risk_level_def SAFE_THRESHOLD_def SUSPICIOUS_THRESHOLD_def)

lemma api_score_of_small:
  assumes "0 \<le> f" "f \<le> c" "c \<le> 3"
  shows "api_score_of c f \<in> {0, 50, 100, 100 / 3, 230 / 3}"
proof -
  from assms have "c \<in> {0, 1, 2, 3}" by auto
  moreover from assms have "f \<in> {0, 1, 2, 3}" by auto
  ultimately show ?thesis using assms(2)
    by (auto simp: api_score_of_def Let_def)
qed


section \<open>Properties of the provider summary\<close>

lemma tally_total: "total_apis (tally r i c) = total_apis c + (if is_available r then 1 else 0)"
  and tally_flagged: "apis_flagged (tally r i c) = apis_flagged c + (if is_available r \<and> not_safe r then 1 else 0)"
  and tally_safe: "apis_safe (tally r i c) = apis_safe c + (if is_available r \<and> \<not> not_safe r then 1 else 0)"
  and tally_unavailable: "unavailable (tally r i c) = unavailable c + (if is_available r then 0 else 1)"
  by (simp_all add: tally_def)


text \<open>
  C4: whatever the three provider results are, the number of providers checked is the
  number that flagged the URL plus the number that marked it safe; a provider that is
  not available is counted in neither, only in \<open>apis_unavailable\<close>.
\<close>

theorem summary_checked_is_flagged_plus_safe:
  fixes gsb vt uh :: provider_result
  defines "s \<equiv> generate_summary gsb vt uh"
  shows "total_apis_checked s = apis_flagged_malicious s + apis_marked_safe s
       \<and> total_apis_checked s = int (length (filter is_available [gsb, vt, uh]))
       \<and> apis_flagged_malicious s = int (length (filter (\<lambda>r. is_available r \<and> not_safe r) [gsb, vt, uh]))
       \<and> apis_marked_safe s = int (length (filter (\<lambda>r. is_available r \<and> \<not> not_safe r) [gsb, vt, uh]))
       \<and> apis_unavailable s = int (length (filter (\<lambda>r. \<not> is_available r) [gsb, vt, uh]))"
  unfolding s_def generate_summary_def Let_def
  by (simp add: tally_total tally_flagged tally_safe tally_unavailable)


section \<open>Properties of the fusion\<close>

text \<open>
  C1: for every pair of inputs the reported final score is the weighted sum of the reported
  API score (weight 0.7) and feature score (weight 0.3), up to the rounding of the three
  reported numbers to two decimals: the difference is at most 0.01.
\<close>

theorem final_score_is_weighted_sum:
  fixes a :: api_results and fr :: "'f feature_results"
  defines "r \<equiv> calculate_risk_score a fr"
  shows "\<bar>final_score r - (0.7 * api_score r + 0.3 * feature_score r)\<bar> \<le> 1 / 100"
proof -
  define api where "api = calculate_api_score a"
  define feat where "feat = (case feature_risk_score fr of None \<Rightarrow> 0 | Some v \<Rightarrow> v)"
  have f: "final_score r = py_round2 (api * 0.7 + feat * 0.3)"
    and a: "api_score r = py_round2 api" and b: "feature_score r = py_round2 feat"
    by (simp_all add: r_def calculate_risk_score_def Let_def api_def feat_def
        WEIGHT_api_score_def WEIGHT_feature_score_def)
  have 1: "\<bar>py_round2 (api * 0.7 + feat * 0.3) - (api * 0.7 + feat * 0.3)\<bar> \<le> 1 / 200"
    by (rule py_round2_close)
  have 2: "\<bar>py_round2 api - api\<bar> \<le> 1 / 200" by (rule py_round2_close)
  have 3: "\<bar>py_round2 feat - feat\<bar> \<le> 1 / 200" by (rule py_round2_close)
  define F where "F = py_round2 (api * 0.7 + feat * 0.3)"
  define A where "A = py_round2 api"
  define B where "B = py_round2 feat"
  from 1 2 3 have "\<bar>F - (api * 0.7 + feat * 0.3)\<bar> \<le> 1 / 200" "\<bar>A - api\<bar> \<le> 1 / 200"
    "\<bar>B - feat\<bar> \<le> 1 / 200"
    by (simp_all only: F_def A_def B_def)
  then have "\<bar>F - (0.7 * A + 0.3 * B)\<bar> \<le> 1 / 100" by argo
  then show ?thesis by (simp only: f a b F_def A_def B_def)
qed


text \<open>
  C3: the API score is 50 when no provider was checked; otherwise it is the flagged ratio
  times 100, and with more than one flagging provider 10 points are added for each
  flagging provider beyond the first, the sum capped at 100. With two providers checked
  and both flagging, the score is 100.
\<close>

theorem api_score_formula:
  "(get_apis_checked a = 0 \<longrightarrow> calculate_api_score a = 50)
 \<and> (get_apis_checked a \<noteq> 0 \<and> get_apis_flagged a \<le> 1 \<longrightarrow>
       calculate_api_score a = real_of_int (get_apis_flagged a) / real_of_int (get_apis_checked a) * 100)
 \<and> (get_apis_checked a \<noteq> 0 \<and> get_apis_flagged a > 1 \<longrightarrow>
       calculate_api_score a =
         min (real_of_int (get_apis_flagged a) / real_of_int (get_apis_checked a) * 100
                + real_of_int (get_apis_flagged a - 1) * 10) 100)
 \<and> (get_apis_checked a = 2 \<and> get_apis_flagged a = 2 \<longrightarrow> calculate_api_score a = 100)"
  by (simp add: calculate_api_score_def api_score_of_def Let_def)


theorem api_score_formula_witness:
  "get_apis_checked two_of_three_flag = 2 \<and> get_apis_flagged two_of_three_flag = 2
   \<and> calculate_api_score two_of_three_flag = 100"
proof -
  have h: "get_apis_checked two_of_three_flag = 2 \<and> get_apis_flagged two_of_three_flag = 2"
    by (simp add: two_of_three_flag_def check_all_apis_def settle_def generate_summary_def
        tally_def is_available_def not_safe_def flagging_def get_apis_checked_def
        get_apis_flagged_def Let_def)
  from api_score_formula [of two_of_three_flag] h
  have "calculate_api_score two_of_three_flag = 100" by blast
  with h show ?thesis by blast
qed


text \<open>
  C8: with the number of providers checked fixed and at least 1, the API score does not
  decrease when the number of flagging providers grows (between 0 and the number checked).
\<close>

theorem api_score_monotone:
  assumes "1 \<le> total_apis_checked s" and "0 \<le> f1" and "f1 \<le> f2" and "f2 \<le> total_apis_checked s"
  shows "calculate_api_score (a\<lparr>summary := Some (s\<lparr>apis_flagged_malicious := f1\<rparr>)\<rparr>)
       \<le> calculate_api_score (a\<lparr>summary := Some (s\<lparr>apis_flagged_malicious := f2\<rparr>)\<rparr>)"
proof -
  define c where "c = total_apis_checked s"
  define x1 where "x1 = real_of_int f1 / real_of_int c * 100"
  define x2 where "x2 = real_of_int f2 / real_of_int c * 100"
  have c: "0 < real_of_int c" and c0: "c \<noteq> 0" using assms(1) by (simp_all add: c_def)
  have "real_of_int f1 / real_of_int c \<le> real_of_int f2 / real_of_int c"
    using c assms(3) by (intro divide_right_mono) simp_all
  then have x12: "x1 \<le> x2" unfolding x1_def x2_def by (intro mult_right_mono) simp_all
  have "real_of_int f1 / real_of_int c \<le> 1" using c assms(3,4) by (simp add: c_def)
  then have "real_of_int f1 / real_of_int c * 100 \<le> 1 * 100" by (intro mult_right_mono) simp_all
  then have cap: "x1 \<le> 100" by (simp only: x1_def mult_1)
  have s1: "api_score_of c f1 = (if f1 > 1 then min (x1 + real_of_int (f1 - 1) * 10) 100 else x1)"
    and s2: "api_score_of c f2 = (if f2 > 1 then min (x2 + real_of_int (f2 - 1) * 10) 100 else x2)"
    using c0 by (simp_all only: api_score_of_def Let_def x1_def x2_def if_False)
  have b12: "real_of_int (f1 - 1) * 10 \<le> real_of_int (f2 - 1) * 10" using assms(3) by simp
  have "api_score_of c f1 \<le> api_score_of c f2"
  proof (cases "f2 > 1")
    case False
    then have "\<not> f1 > 1" using assms(3) by simp
    with False x12 show ?thesis by (simp only: s1 s2 if_False)
  next
    case f2: True
    then have b2: "0 \<le> real_of_int (f2 - 1) * 10" by simp
    show ?thesis
    proof (cases "f1 > 1")
      case True
      with f2 x12 b12 show ?thesis unfolding s1 s2 by (simp add: min_def)
    next
      case False
      with f2 x12 cap b2 show ?thesis unfolding s1 s2 by (simp add: min_def)
    qed
  qed
  then show ?thesis
    by (simp add: calculate_api_score_def get_apis_checked_def get_apis_flagged_def c_def)
qed

theorem api_score_monotone_witness:
  "calculate_api_score (two_of_three_flag\<lparr>summary :=
       Some ((generate_summary flagging flagging clean)\<lparr>apis_flagged_malicious := 1\<rparr>)\<rparr>)
   \<le> calculate_api_score (two_of_three_flag\<lparr>summary :=
       Some ((generate_summary flagging flagging clean)\<lparr>apis_flagged_malicious := 3\<rparr>)\<rparr>)"
proof -
  have c: "total_apis_checked (generate_summary flagging flagging clean) = 3"
    by (simp add: generate_summary_def tally_def is_available_def not_safe_def flagging_def
        clean_def Let_def)
  show ?thesis
    by (rule api_score_monotone) (simp_all add: c)
qed

section \<open>Properties of the validator\<close>

lemma dropWhile_all: "list_all P s \<Longrightarrow> dropWhile P s = []"
  by (induction s) auto

lemma py_strip_whitespace: "list_all py_isspace s \<Longrightarrow> py_strip s = []"
  by (simp add: py_strip_def dropWhile_all)

lemma dropWhile_fixed: "(s = [] \<or> \<not> P (hd s)) \<Longrightarrow> dropWhile P s = s"
  by (cases s) auto

lemma py_strip_ends:
  "(py_strip s = [] \<or> \<not> py_isspace (hd (py_strip s)))
   \<and> (py_strip s = [] \<or> \<not> py_isspace (last (py_strip s)))"
proof -
  define t where "t = dropWhile py_isspace s"
  define u where "u = dropWhile py_isspace (rev t)"
  have s: "py_strip s = rev u" by (simp add: py_strip_def u_def t_def)
  have t: "t = [] \<or> \<not> py_isspace (hd t)" unfolding t_def by (metis hd_dropWhile)
  have u: "u = [] \<or> \<not> py_isspace (hd u)" unfolding u_def by (metis hd_dropWhile)
  have last_ok: "rev u = [] \<or> \<not> py_isspace (last (rev u))"
    using u by (cases u) auto
  have hd_ok: "rev u = [] \<or> \<not> py_isspace (hd (rev u))"
  proof (cases "u = []")
    case True then show ?thesis by simp
  next
    case False
    then have tne: "t \<noteq> []" unfolding u_def by auto
    then obtain x t' where tx: "t = x # t'" by (cases t) auto
    with t have nx: "\<not> py_isspace x" by simp
    have "rev t = rev t' @ [x]" using tx by simp
    then have "u = dropWhile py_isspace (rev t') @ [x]"
      unfolding u_def using nx by (simp add: dropWhile_append3)
    then have "rev u = x # rev (dropWhile py_isspace (rev t'))" by simp
    with nx show ?thesis by simp
  qed
  from hd_ok last_ok show ?thesis unfolding s by blast
qed

lemma py_strip_idem: "py_strip (py_strip s) = py_strip s"
proof -
  define v where "v = py_strip s"
  have h: "v = [] \<or> \<not> py_isspace (hd v)" and l: "v = [] \<or> \<not> py_isspace (last v)"
    using py_strip_ends [of s] by (simp_all add: v_def)
  have 1: "dropWhile py_isspace v = v" using h by (rule dropWhile_fixed)
  have "rev v = [] \<or> \<not> py_isspace (hd (rev v))" using l by (cases "v = []") (simp_all add: hd_rev)
  then have 2: "dropWhile py_isspace (rev v) = rev v" by (rule dropWhile_fixed)
  have "py_strip v = v" by (simp add: py_strip_def 1 2)
  then show ?thesis by (simp add: v_def)
qed

lemma startswith_iff: "startswith s p \<longleftrightarrow> (\<exists>r. s = p @ r)"
  by (induction s p rule: startswith.induct) auto

lemma normalize_url_cases:
  "normalize_url s = (if startswith (py_strip s) ''http://'' \<or> startswith (py_strip s) ''https://''
                      then py_strip s else ''http://'' @ py_strip s)"
  by (simp add: normalize_url_def Let_def)

lemma normalize_url_prefix:
  "startswith (normalize_url s) ''http://'' \<or> startswith (normalize_url s) ''https://''"
  unfolding normalize_url_cases by (simp add: startswith_iff)

lemma split_scheme_http: "split_scheme (''http://'' @ r) = (''http'', ''//'' @ r)"
  by (simp add: split_scheme_def scheme_chars_def re_alpha_def py_lower_def py_lower_char_def Let_def)

lemma split_scheme_https: "split_scheme (''https://'' @ r) = (''https'', ''//'' @ r)"
  by (simp add: split_scheme_def scheme_chars_def re_alpha_def py_lower_def py_lower_char_def Let_def)

lemma clean_http: 
  "filter (\<lambda>c. \<not> unsafe_url_byte c) (dropWhile c0_control_or_space (''http://'' @ r))
     = ''http://'' @ filter (\<lambda>c. \<not> unsafe_url_byte c) r"
  by (simp add: unsafe_url_byte_def c0_control_or_space_def)

lemma clean_https: 
  "filter (\<lambda>c. \<not> unsafe_url_byte c) (dropWhile c0_control_or_space (''https://'' @ r))
     = ''https://'' @ filter (\<lambda>c. \<not> unsafe_url_byte c) r"
  by (simp add: unsafe_url_byte_def c0_control_or_space_def)

lemma urlsplit_scheme_http:
  assumes "urlsplit chk (''http://'' @ r) = Inr p" shows "scheme p = ''http''"
  using assms unfolding urlsplit_def Let_def clean_http split_scheme_http
  by (auto split: if_splits prod.splits)

lemma urlsplit_scheme_https:
  assumes "urlsplit chk (''https://'' @ r) = Inr p" shows "scheme p = ''https''"
  using assms unfolding urlsplit_def Let_def clean_https split_scheme_https
  by (auto split: if_splits prod.splits)

lemma urlparse_scheme: "urlparse chk u = Inr p \<Longrightarrow> \<exists>sp. urlsplit chk u = Inr sp \<and> scheme p = scheme sp"
  by (auto simp: urlparse_def split: sum.splits if_splits prod.splits)

lemma urlparse_normalized_scheme:
  assumes "urlparse chk (normalize_url s) = Inr p"
  shows "scheme p = ''http'' \<or> scheme p = ''https''"
proof -
  from assms obtain sp where sp: "urlsplit chk (normalize_url s) = Inr sp" "scheme p = scheme sp"
    using urlparse_scheme by blast
  from normalize_url_prefix [of s] consider r where "normalize_url s = ''http://'' @ r"
    | r where "normalize_url s = ''https://'' @ r"
    unfolding startswith_iff by blast
  then show ?thesis
  proof cases
    case 1 with sp urlsplit_scheme_http show ?thesis by metis
  next
    case 2 with sp urlsplit_scheme_https show ?thesis by metis
  qed
qed

text \<open>
  C7: an input that is empty or consists of white space only is rejected with the message
  of the empty input, and the scan entry point returns that error alone: none of the
  aggregator, the feature extractor and the fusion engine is invoked.
\<close>

theorem empty_input_rejected:
  assumes "list_all py_isspace raw"
  shows "validate_url (check_bracketed_host w) raw = (False, '''', ''URL cannot be empty'')
       \<and> scan_url w raw = (Error_response ''URL cannot be empty'', [])"
proof -
  have v: "validate_url chk raw = (False, '''', ''URL cannot be empty'')" for chk
    using py_strip_whitespace [OF assms] by (simp add: validate_url_def Let_def)
  then show ?thesis by (simp add: scan_url_def)
qed

theorem empty_input_rejected_witness:
  "list_all py_isspace blank
   \<and> validate_url (check_bracketed_host offline) blank = (False, '''', ''URL cannot be empty'')
   \<and> scan_url offline blank = (Error_response ''URL cannot be empty'', [])"
proof -
  have h: "list_all py_isspace blank" by (simp add: blank_def py_isspace_def)
  from empty_input_rejected [OF h, of offline] h show ?thesis by blast
qed

text \<open>
  C10: normalisation puts \<^verbatim>\<open>http://\<close> in front of every input that does not start with
  \<^verbatim>\<open>http://\<close> or \<^verbatim>\<open>https://\<close>; the scheme parsed from a normalised URL is therefore
  \<^verbatim>\<open>http\<close> or \<^verbatim>\<open>https\<close>, and \<^verbatim>\<open>validate_url\<close> never returns the error of an unsupported
  scheme.
\<close>

theorem scheme_error_unreachable:
  "normalize_url s = (if startswith (py_strip s) ''http://'' \<or> startswith (py_strip s) ''https://''
                      then py_strip s else ''http://'' @ py_strip s)
   \<and> (\<forall>p. urlparse chk (normalize_url s) = Inr p \<longrightarrow> scheme p = ''http'' \<or> scheme p = ''https'')
   \<and> snd (snd (validate_url chk s)) \<noteq> ''URL must use http or https protocol''"
proof -
  have 2: "\<forall>p. urlparse chk (normalize_url t) = Inr p \<longrightarrow> scheme p = ''http'' \<or> scheme p = ''https''" for t
    using urlparse_normalized_scheme by blast
  have 3: "snd (snd (validate_url chk s)) \<noteq> ''URL must use http or https protocol''"
    using 2 [of "py_strip s"]
    by (auto simp: validate_url_def Let_def split: sum.splits py_exception.splits)
  from normalize_url_cases [of s] 2 [of s] 3 show ?thesis by blast
qed

theorem scheme_error_unreachable_witness:
  "urlparse (check_bracketed_host offline) (normalize_url ''ftp://example.com'')
     = Inr \<lparr>scheme = ''http'', netloc = ''ftp:'', path = ''//example.com'', params = '''',
            query = '''', fragment = ''''\<rparr>
   \<and> (scheme \<lparr>scheme = ''http'', netloc = ''ftp:'', path = ''//example.com'', params = '''',
            query = '''', fragment = ''''\<rparr> = ''http''
        \<or> scheme \<lparr>scheme = ''http'', netloc = ''ftp:'', path = ''//example.com'', params = '''',
            query = '''', fragment = ''''\<rparr> = ''https'')
   \<and> snd (snd (validate_url (check_bracketed_host offline) ''ftp://example.com''))
        \<noteq> ''URL must use http or https protocol''"
proof -
  have p: "urlparse (check_bracketed_host offline) (normalize_url ''ftp://example.com'')
     = Inr \<lparr>scheme = ''http'', netloc = ''ftp:'', path = ''//example.com'', params = '''',
            query = '''', fragment = ''''\<rparr>"
    by code_simp
  from scheme_error_unreachable [of "''ftp://example.com''" "check_bracketed_host offline"] p
  show ?thesis by blast
qed

text \<open>
  C6, as the claim states it, fails: \<^verbatim>\<open>validate_url\<close> accepts \<^verbatim>\<open>Example.COM/Path\<close> and
  returns \<^verbatim>\<open>http://Example.COM/Path\<close>, whose host is not in lower case.
\<close>

theorem validate_url_host_not_lowercased:
  "validate_url (check_bracketed_host offline) ''Example.COM/Path''
     = (True, ''http://Example.COM/Path'', '''')
   \<and> urlparse (check_bracketed_host offline) ''http://Example.COM/Path''
     = Inr \<lparr>scheme = ''http'', netloc = ''Example.COM'', path = ''/Path'', params = '''',
            query = '''', fragment = ''''\<rparr>
   \<and> py_lower ''Example.COM'' \<noteq> ''Example.COM''"
  by code_simp

text \<open>
  C6, amended: the URL returned for an accepted input is the trimmed input, with
  \<^verbatim>\<open>http://\<close> in front when the trimmed input starts with neither \<^verbatim>\<open>http://\<close> nor
  \<^verbatim>\<open>https://\<close>. Its scheme is \<^verbatim>\<open>http\<close> or \<^verbatim>\<open>https\<close> in lower case, its host is not empty
  and is a valid domain, and no character of host, path, query or fragment is changed.
\<close>

theorem validate_url_returns_trimmed_input:
  assumes "validate_url chk raw = (True, n, e)"
  shows "(n = py_strip raw \<or> n = ''http://'' @ py_strip raw)
       \<and> (startswith n ''http://'' \<or> startswith n ''https://'')
       \<and> (\<exists>p. urlparse chk n = Inr p \<and> (scheme p = ''http'' \<or> scheme p = ''https'')
              \<and> netloc p \<noteq> [] \<and> is_valid_domain (netloc p))
       \<and> e = ''''"
proof -
  define u where "u = py_strip raw"
  have su: "py_strip u = u" by (simp add: u_def py_strip_idem)
  from assms have n: "n = normalize_url u" and e: "e = ''''"
    by (auto simp: validate_url_def Let_def u_def split: if_splits sum.splits py_exception.splits)
  from assms obtain p where p: "urlparse chk (normalize_url u) = Inr p"
    "netloc p \<noteq> []" "is_valid_domain (netloc p)"
    by (auto simp: validate_url_def Let_def u_def split: if_splits sum.splits py_exception.splits)
  have sch: "scheme p = ''http'' \<or> scheme p = ''https''"
    using p(1) by (rule urlparse_normalized_scheme)
  have shape: "n = u \<or> n = ''http://'' @ u"
    unfolding n normalize_url_cases su by simp
  have pre: "startswith n ''http://'' \<or> startswith n ''https://''"
    unfolding n by (rule normalize_url_prefix)
  from shape pre p sch e show ?thesis unfolding n u_def by blast
qed

theorem validate_url_returns_trimmed_input_witness:
  "validate_url (check_bracketed_host offline) ''Example.COM/Path''
     = (True, ''http://Example.COM/Path'', '''')
   \<and> ''http://Example.COM/Path'' = ''http://'' @ py_strip ''Example.COM/Path''
   \<and> startswith ''http://Example.COM/Path'' ''http://''"
proof -
  have h: "validate_url (check_bracketed_host offline) ''Example.COM/Path''
     = (True, ''http://Example.COM/Path'', '''')" by code_simp
  have ne: "''http://Example.COM/Path'' \<noteq> py_strip ''Example.COM/Path''" by code_simp
  have pre: "\<not> startswith ''http://Example.COM/Path'' ''https://''" by code_simp
  from validate_url_returns_trimmed_input [OF h] ne pre h show ?thesis by blast
qed

section \<open>Properties of the scan\<close>

lemma generate_summary_bounds:
  "0 \<le> apis_flagged_malicious (generate_summary g v u)
   \<and> apis_flagged_malicious (generate_summary g v u) \<le> total_apis_checked (generate_summary g v u)
   \<and> total_apis_checked (generate_summary g v u) \<le> 3"
  unfolding generate_summary_def Let_def
  by (simp add: tally_total tally_flagged)

lemma check_all_apis_counts:
  "\<exists>g v u. get_apis_checked (check_all_apis outs) = total_apis_checked (generate_summary g v u)
         \<and> get_apis_flagged (check_all_apis outs) = apis_flagged_malicious (generate_summary g v u)"
  by (cases outs) (auto simp: check_all_apis_def get_apis_checked_def get_apis_flagged_def Let_def)

lemma risk_rule_nonneg: "0 \<le> inc \<Longrightarrow> 0 \<le> fst acc \<Longrightarrow> 0 \<le> fst (risk_rule b inc factor acc)"
  by (simp add: risk_rule_def)

lemma risk_rules_nonneg: "0 \<le> fst (risk_rules f)"
  unfolding risk_rules_def Let_def
  by (intro risk_rule_nonneg) simp_all

lemma analyze_score:
  assumes "analyze_url_features chk ext u = Inr fr"
  shows "\<exists>m. feature_risk_score fr = Some (real_of_int m) \<and> 0 \<le> m \<and> m \<le> 100"
proof -
  from assms obtain f where fr: "fr = \<lparr>features = Some f,
      feature_risk_score = Some (real_of_int (min (fst (risk_rules f)) 100)),
      risk_factors = Some (snd (risk_rules f)), total_features = Some 43\<rparr>"
    by (auto simp: analyze_url_features_def split: sum.splits prod.splits)
  have "0 \<le> min (fst (risk_rules f)) 100 \<and> min (fst (risk_rules f)) 100 \<le> 100"
    using risk_rules_nonneg [of f] by simp
  then show ?thesis unfolding fr by auto
qed

lemma fused_score:
  assumes "0 \<le> f" "f \<le> c" "c \<le> 3" "0 \<le> m" "m \<le> 100"
  defines "x \<equiv> api_score_of c f * WEIGHT_api_score + real_of_int m * WEIGHT_feature_score"
  shows "(\<exists>k. x = real_of_int k / 30) \<and> 0 \<le> x \<and> x \<le> 100"
proof -
  have m: "0 \<le> real_of_int m" "real_of_int m \<le> 100" using assms(4,5) by simp_all
  from api_score_of_small [OF assms(1,2,3)]
  consider "api_score_of c f = 0" | "api_score_of c f = 50" | "api_score_of c f = 100"
    | "api_score_of c f = 100 / 3" | "api_score_of c f = 230 / 3" by auto
  then show ?thesis
  proof cases
    case 1
    have "x = real_of_int (9 * m) / 30" by (simp add: x_def 1 WEIGHT_api_score_def WEIGHT_feature_score_def)
    moreover have "0 \<le> x \<and> x \<le> 100" using m by (simp add: x_def 1 WEIGHT_api_score_def WEIGHT_feature_score_def)
    ultimately show ?thesis by blast
  next
    case 2
    have "x = real_of_int (1050 + 9 * m) / 30" by (simp add: x_def 2 WEIGHT_api_score_def WEIGHT_feature_score_def)
    moreover have "0 \<le> x \<and> x \<le> 100" using m by (simp add: x_def 2 WEIGHT_api_score_def WEIGHT_feature_score_def)
    ultimately show ?thesis by blast
  next
    case 3
    have "x = real_of_int (2100 + 9 * m) / 30" by (simp add: x_def 3 WEIGHT_api_score_def WEIGHT_feature_score_def)
    moreover have "0 \<le> x \<and> x \<le> 100" using m by (simp add: x_def 3 WEIGHT_api_score_def WEIGHT_feature_score_def)
    ultimately show ?thesis by blast
  next
    case 4
    have "x = real_of_int (700 + 9 * m) / 30" by (simp add: x_def 4 WEIGHT_api_score_def WEIGHT_feature_score_def)
    moreover have "0 \<le> x \<and> x \<le> 100" using m by (simp add: x_def 4 WEIGHT_api_score_def WEIGHT_feature_score_def)
    ultimately show ?thesis by blast
  next
    case 5
    have "x = real_of_int (1610 + 9 * m) / 30" by (simp add: x_def 5 WEIGHT_api_score_def WEIGHT_feature_score_def)
    moreover have "0 \<le> x \<and> x \<le> 100" using m by (simp add: x_def 5 WEIGHT_api_score_def WEIGHT_feature_score_def)
    ultimately show ?thesis by blast
  qed
qed

lemma validate_url_ok:
  assumes "validate_url chk raw = (True, n, e)"
  shows "e = '''' \<and> n = normalize_url (py_strip raw)
       \<and> (\<exists>p. urlparse chk n = Inr p \<and> netloc p \<noteq> [] \<and> is_valid_domain (netloc p))"
  using assms
  by (auto simp: validate_url_def Let_def split: if_splits sum.splits py_exception.splits)

lemma analyze_total:
  assumes "urlparse chk u = Inr p"
  shows "\<exists>fr. analyze_url_features chk ext u = Inr fr"
  using assms
  by (simp add: analyze_url_features_def extract_all_features_def extract_entropy_features_def
      split: prod.splits)

lemma scan_report:
  assumes "scan_url w raw = (Report a, tr)"
  shows "\<exists>n fr. validate_url (check_bracketed_host w) raw = (True, n, '''')
      \<and> analyze_url_features (check_bracketed_host w) (tldextract w) n = Inr fr
      \<and> a = get_complete_analysis n (check_all_apis (providers w n)) fr"
proof -
  obtain ok n e where v: "validate_url (check_bracketed_host w) raw = (ok, n, e)"
    by (cases "validate_url (check_bracketed_host w) raw") auto
  from assms v have ok: "ok"
    by (auto simp: scan_url_def split: if_splits)
  from v ok have e: "e = ''''"
    using validate_url_ok [of "check_bracketed_host w" raw n e] by simp
  from assms v ok show ?thesis
    by (auto simp: scan_url_def Let_def e split: sum.splits)
qed

lemma scan_accepted:
  assumes "validate_url (check_bracketed_host w) raw = (True, n, e)"
  shows "\<exists>fr. analyze_url_features (check_bracketed_host w) (tldextract w) n = Inr fr
      \<and> scan_url w raw = (Report (get_complete_analysis n (check_all_apis (providers w n)) fr),
                          [Aggregator, Feature_extractor, Fusion_engine])"
proof -
  from validate_url_ok [OF assms] obtain p where "urlparse (check_bracketed_host w) n = Inr p"
    by blast
  from analyze_total [OF this] obtain fr
    where fr: "analyze_url_features (check_bracketed_host w) (tldextract w) n = Inr fr" by blast
  then show ?thesis using assms by (simp add: scan_url_def Let_def)
qed

lemma fused_report:
  fixes outs :: "outcome \<times> outcome \<times> outcome"
  assumes fr: "analyze_url_features chk ext n = Inr fr"
  defines "rs \<equiv> calculate_risk_score (check_all_apis outs) fr"
  shows "\<exists>c f m x. 0 \<le> f \<and> f \<le> c \<and> c \<le> 3 \<and> 0 \<le> m \<and> m \<le> 100
      \<and> get_apis_checked (check_all_apis outs) = c \<and> get_apis_flagged (check_all_apis outs) = f
      \<and> feature_risk_score fr = Some (real_of_int m)
      \<and> x = api_score_of c f * WEIGHT_api_score + real_of_int m * WEIGHT_feature_score
      \<and> final_score rs = py_round2 x \<and> risk_level rs = determine_risk_level x
      \<and> api_score rs = py_round2 (api_score_of c f) \<and> feature_score rs = py_round2 (real_of_int m)"
proof -
  from analyze_score [OF fr] obtain m
    where m: "feature_risk_score fr = Some (real_of_int m)" "0 \<le> m" "m \<le> 100" by blast
  from check_all_apis_counts [of outs] obtain g v u
    where c: "get_apis_checked (check_all_apis outs) = total_apis_checked (generate_summary g v u)"
      and f: "get_apis_flagged (check_all_apis outs) = apis_flagged_malicious (generate_summary g v u)"
    by blast
  note b = generate_summary_bounds [of g v u]
  have "final_score rs = py_round2 (api_score_of (get_apis_checked (check_all_apis outs))
            (get_apis_flagged (check_all_apis outs)) * WEIGHT_api_score
          + real_of_int m * WEIGHT_feature_score)"
    and "risk_level rs = determine_risk_level (api_score_of (get_apis_checked (check_all_apis outs))
            (get_apis_flagged (check_all_apis outs)) * WEIGHT_api_score
          + real_of_int m * WEIGHT_feature_score)"
    and "api_score rs = py_round2 (api_score_of (get_apis_checked (check_all_apis outs))
            (get_apis_flagged (check_all_apis outs)))"
    and "feature_score rs = py_round2 (real_of_int m)"
    by (simp_all add: rs_def calculate_risk_score_def calculate_api_score_def Let_def m(1))
  with m b c f show ?thesis by metis
qed

text \<open>
  C2: for every input that passes validation and is scanned, whatever the providers
  answer, the reported final score lies between 0 and 100, and the reported risk level
  is SAFE when that score is at most 30, SUSPICIOUS when it is above 30 and at most 70,
  and MALICIOUS when it is above 70.
\<close>

theorem risk_level_matches_score:
  assumes "scan_url w raw = (Report a, tr)"
  shows "0 \<le> score a \<and> score a \<le> 100
       \<and> (level a = SAFE \<longleftrightarrow> score a \<le> 30)
       \<and> (level a = SUSPICIOUS \<longleftrightarrow> 30 < score a \<and> score a \<le> 70)
       \<and> (level a = MALICIOUS \<longleftrightarrow> 70 < score a)"
proof -
  from scan_report [OF assms] obtain n fr
    where fr: "analyze_url_features (check_bracketed_host w) (tldextract w) n = Inr fr"
      and a: "a = get_complete_analysis n (check_all_apis (providers w n)) fr" by blast
  from fused_report [OF fr, of "providers w n"] obtain c f m x
    where b: "0 \<le> f" "f \<le> c" "c \<le> 3" "0 \<le> m" "m \<le> 100"
      and x: "x = api_score_of c f * WEIGHT_api_score + real_of_int m * WEIGHT_feature_score"
      and s: "final_score (calculate_risk_score (check_all_apis (providers w n)) fr) = py_round2 x"
      and l: "risk_level (calculate_risk_score (check_all_apis (providers w n)) fr) = determine_risk_level x"
    by blast
  have sa: "score a = py_round2 x" and la: "level a = determine_risk_level x"
    by (simp_all add: a get_complete_analysis_def get_detailed_analysis_def s l)
  from fused_score [OF b] obtain k where k: "x = real_of_int k / 30" and r: "0 \<le> x" "x \<le> 100"
    unfolding x by blast
  have "0 \<le> py_round2 x" using py_round2_ge [of 0 x] r(1) by simp
  moreover have "py_round2 x \<le> 100" using py_round2_le [of x 100] r(2) by simp
  ultimately show ?thesis using level_matches_rounded [OF k] unfolding sa la by blast
qed

theorem risk_level_matches_score_witness:
  "scan_url offline ''google.com''
     = (Report google_report, [Aggregator, Feature_extractor, Fusion_engine])
   \<and> 0 \<le> score google_report \<and> score google_report \<le> 100
   \<and> (level google_report = SAFE \<longleftrightarrow> score google_report \<le> 30)
   \<and> (level google_report = SUSPICIOUS \<longleftrightarrow> 30 < score google_report \<and> score google_report \<le> 70)
   \<and> (level google_report = MALICIOUS \<longleftrightarrow> 70 < score google_report)"
proof -
  have v: "validate_url (check_bracketed_host offline) ''google.com''
             = (True, ''http://google.com'', '''')"
    by code_simp
  from scan_accepted [OF v] obtain fr
    where fr: "analyze_url_features (check_bracketed_host offline) (tldextract offline)
                 ''http://google.com'' = Inr fr"
      and s: "scan_url offline ''google.com''
                = (Report (get_complete_analysis ''http://google.com''
                     (check_all_apis (providers offline ''http://google.com'')) fr),
                   [Aggregator, Feature_extractor, Fusion_engine])"
    by blast
  have h: "scan_url offline ''google.com''
     = (Report google_report, [Aggregator, Feature_extractor, Fusion_engine])"
    by (simp add: s google_report_def fr)
  from risk_level_matches_score [OF h] h show ?thesis by blast
qed

section \<open>The second scenario: an IP host with three suspicious keywords\<close>

lemma risk_rule_fst: "fst (risk_rule b inc factor acc) = fst acc + (if b then inc else 0)"
  by (simp add: risk_rule_def)

lemma risk_rule_snd: "snd (risk_rule b inc factor acc) = snd acc @ (if b then [factor] else [])"
  by (simp add: risk_rule_def)

lemma risk_rules_ip_keywords:
  assumes "is_ip_address (by_domain f) \<noteq> 0" and "suspicious_keyword_count (by_pattern f) > 2"
    and "has_https (by_pattern f) = 0"
  shows "40 \<le> fst (risk_rules f)"
    and "''Uses IP address instead of domain name'' \<in> set (snd (risk_rules f))"
    and "''Contains multiple suspicious keywords'' \<in> set (snd (risk_rules f))"
  using assms unfolding risk_rules_def Let_def
  by (simp_all add: risk_rule_fst risk_rule_snd)

lemma scenario2_parse:
  "urlparse chk scenario2_url
     = Inr \<lparr>scheme = ''http'', netloc = ''192.168.1.1'', path = ''/login/verify/secure'',
            params = '''', query = '''', fragment = ''''\<rparr>"
  by code_simp

lemma scenario2_is_ip: "match_ip_pattern ''192.168.1.1''"
  by code_simp

lemma scenario2_keywords: "keyword_count scenario2_url = 3"
  by code_simp

lemma scenario2_features:
  assumes "analyze_url_features chk ext scenario2_url = Inr fr"
  shows "\<exists>f. features fr = Some f \<and> is_ip_address (by_domain f) = 1
           \<and> suspicious_keyword_count (by_pattern f) = 3 \<and> has_https (by_pattern f) = 0
           \<and> feature_risk_score fr = Some (real_of_int (min (fst (risk_rules f)) 100))
           \<and> risk_factors fr = Some (snd (risk_rules f))"
  using assms
  by (auto simp: analyze_url_features_def extract_all_features_def extract_entropy_features_def
      extract_domain_features_def extract_pattern_features_def Let_def
      scenario2_parse scenario2_is_ip scenario2_keywords split: prod.splits)

lemma api_score_zero_iff:
  assumes "0 \<le> f" "f \<le> c" "c \<le> 3"
  shows "api_score_of c f = 0 \<longleftrightarrow> 0 < c \<and> f = 0"
    and "api_score_of c f \<noteq> 0 \<Longrightarrow> 100 / 3 \<le> api_score_of c f"
proof -
  from assms have "c \<in> {0, 1, 2, 3}" by auto
  moreover from assms have "f \<in> {0, 1, 2, 3}" by auto
  ultimately show "api_score_of c f = 0 \<longleftrightarrow> 0 < c \<and> f = 0" using assms(2)
    by (auto simp: api_score_of_def Let_def)
  show "100 / 3 \<le> api_score_of c f" if "api_score_of c f \<noteq> 0"
    using api_score_of_small [OF assms] that by auto
qed

lemma scenario2_level:
  fixes outs :: "outcome \<times> outcome \<times> outcome"
  assumes fr: "analyze_url_features chk ext scenario2_url = Inr fr"
  shows "risk_level (calculate_risk_score (check_all_apis outs) fr) = SAFE
         \<longleftrightarrow> 0 < get_apis_checked (check_all_apis outs) \<and> get_apis_flagged (check_all_apis outs) = 0"
proof -
  from scenario2_features [OF fr] obtain f
    where f: "is_ip_address (by_domain f) = 1" "suspicious_keyword_count (by_pattern f) = 3"
      "has_https (by_pattern f) = 0"
      "feature_risk_score fr = Some (real_of_int (min (fst (risk_rules f)) 100))" by blast
  have lo: "40 \<le> min (fst (risk_rules f)) 100"
    using risk_rules_ip_keywords(1) [of f] f by simp
  from fused_report [OF fr, of outs] obtain c g m x
    where b: "0 \<le> g" "g \<le> c" "c \<le> 3" "0 \<le> m" "m \<le> 100"
      and cs: "get_apis_checked (check_all_apis outs) = c" "get_apis_flagged (check_all_apis outs) = g"
      and m: "feature_risk_score fr = Some (real_of_int m)"
      and x: "x = api_score_of c g * WEIGHT_api_score + real_of_int m * WEIGHT_feature_score"
      and l: "risk_level (calculate_risk_score (check_all_apis outs) fr) = determine_risk_level x"
    by blast
  from m f(4) lo have m40: "40 \<le> real_of_int m" by simp
  have m100: "real_of_int m \<le> 100" using b(5) by simp
  have safe: "determine_risk_level x = SAFE \<longleftrightarrow> x \<le> 30"
    by (simp add: determine_risk_level_def SAFE_THRESHOLD_def SUSPICIOUS_THRESHOLD_def)
  have "x \<le> 30 \<longleftrightarrow> api_score_of c g = 0"
  proof (cases "api_score_of c g = 0")
    case True
    then show ?thesis using m100 by (simp add: x WEIGHT_feature_score_def)
  next
    case False
    from api_score_zero_iff(2) [OF b(1,2,3) False] m40
    have "30 < x" by (simp add: x WEIGHT_api_score_def WEIGHT_feature_score_def)
    with False show ?thesis by simp
  qed
  then show ?thesis unfolding l safe cs using api_score_zero_iff(1) [OF b(1,2,3)] by simp
qed

text \<open>
  C9, as the claim states it, fails in its last part: when the three providers answer and
  none flags \<^verbatim>\<open>http://192.168.1.1/login/verify/secure\<close>, the API score is 0 and the risk
  level of the report is SAFE.
\<close>

theorem ip_login_url_can_be_safe:
  "response_level (fst (scan_url all_clear scenario2_url)) = Some SAFE"
proof -
  have v: "validate_url (check_bracketed_host all_clear) scenario2_url = (True, scenario2_url, '''')"
    by code_simp
  from scan_accepted [OF v] obtain fr
    where fr: "analyze_url_features (check_bracketed_host all_clear) (tldextract all_clear)
                 scenario2_url = Inr fr"
      and s: "scan_url all_clear scenario2_url
                = (Report (get_complete_analysis scenario2_url
                     (check_all_apis (providers all_clear scenario2_url)) fr),
                   [Aggregator, Feature_extractor, Fusion_engine])"
    by blast
  have c: "get_apis_checked (check_all_apis (providers all_clear scenario2_url)) = 3"
    "get_apis_flagged (check_all_apis (providers all_clear scenario2_url)) = 0"
    by (simp_all add: all_clear_def check_all_apis_def settle_def generate_summary_def
        tally_def is_available_def not_safe_def clean_def get_apis_checked_def
        get_apis_flagged_def Let_def)
  have "risk_level (calculate_risk_score (check_all_apis (providers all_clear scenario2_url)) fr) = SAFE"
    unfolding scenario2_level [OF fr] c by simp
  then show ?thesis
    by (simp add: s response_level_def get_complete_analysis_def get_detailed_analysis_def)
qed

text \<open>
  C9, amended: for \<^verbatim>\<open>http://192.168.1.1/login/verify/secure\<close> the feature analysis
  succeeds with \<open>is_ip_address = 1\<close> and \<open>suspicious_keyword_count = 3\<close>; the feature risk
  score contains the increments 20 (IP address) and 15 (suspicious keywords), and both
  risk factors are listed. The risk level is SAFE exactly when at least one provider was
  checked and none flagged the URL; in every other case it is SUSPICIOUS or MALICIOUS.
\<close>

theorem ip_login_url_features:
  fixes outs :: "outcome \<times> outcome \<times> outcome"
    and chk :: "string \<Rightarrow> string option"
    and ext :: "string \<Rightarrow> (string \<times> string \<times> string) option"
  defines "fr \<equiv> projr (analyze_url_features chk ext scenario2_url)"
  shows "analyze_url_features chk ext scenario2_url = Inr fr
       \<and> (\<exists>f m. features fr = Some f \<and> is_ip_address (by_domain f) = 1
              \<and> suspicious_keyword_count (by_pattern f) = 3
              \<and> feature_risk_score fr = Some (real_of_int m) \<and> 20 + 15 \<le> m \<and> m \<le> 100)
       \<and> (\<exists>factors. risk_factors fr = Some factors
              \<and> ''Uses IP address instead of domain name'' \<in> set factors
              \<and> ''Contains multiple suspicious keywords'' \<in> set factors)
       \<and> (risk_level (calculate_risk_score (check_all_apis outs) fr) = SAFE
            \<longleftrightarrow> 0 < get_apis_checked (check_all_apis outs) \<and> get_apis_flagged (check_all_apis outs) = 0)"
proof -
  from analyze_total [OF scenario2_parse] obtain fr0
    where "analyze_url_features chk ext scenario2_url = Inr fr0" by blast
  then have fr: "analyze_url_features chk ext scenario2_url = Inr fr" by (simp add: fr_def)
  from scenario2_features [OF fr] obtain f
    where f: "features fr = Some f" "is_ip_address (by_domain f) = 1"
      "suspicious_keyword_count (by_pattern f) = 3" "has_https (by_pattern f) = 0"
      "feature_risk_score fr = Some (real_of_int (min (fst (risk_rules f)) 100))"
      "risk_factors fr = Some (snd (risk_rules f))" by blast
  have r: "40 \<le> fst (risk_rules f)"
    "''Uses IP address instead of domain name'' \<in> set (snd (risk_rules f))"
    "''Contains multiple suspicious keywords'' \<in> set (snd (risk_rules f))"
    using risk_rules_ip_keywords [of f] f by simp_all
  have m: "20 + 15 \<le> min (fst (risk_rules f)) 100 \<and> min (fst (risk_rules f)) 100 \<le> 100"
    using r(1) by simp
  from fr f m r scenario2_level [OF fr, of outs] show ?thesis by blast
qed

section \<open>Properties of the entropy features\<close>

lemma foldl_minus:
  fixes g :: "nat \<Rightarrow> real"
  shows "foldl (\<lambda>e n. e - g n) a ns = a - sum_list (map g ns)"
  by (induction ns arbitrary: a) (simp_all add: algebra_simps)

lemma count_char_keys: "fst ` set (count_char c freq) = insert c (fst ` set freq)"
proof (induction freq)
  case Nil
  then show ?case by simp
next
  case (Cons kn freq)
  obtain k n where kn: "kn = (k, n)" by (cases kn)
  show ?case
  proof (cases "k = c")
    case True
    then show ?thesis by (simp add: kn)
  next
    case False
    then show ?thesis using Cons.IH by (simp add: kn insert_commute)
  qed
qed

lemma count_char_distinct:
  "distinct (map fst freq) \<Longrightarrow> distinct (map fst (count_char c freq))"
proof (induction freq)
  case Nil
  then show ?case by simp
next
  case (Cons kn freq)
  obtain k n where kn: "kn = (k, n)" by (cases kn)
  from Cons.prems have k: "k \<notin> fst ` set freq" and d: "distinct (map fst freq)"
    by (simp_all add: kn)
  show ?case
  proof (cases "k = c")
    case True
    with Cons.prems show ?thesis by (simp add: kn)
  next
    case False
    with k have "k \<notin> fst ` set (count_char c freq)" by (simp add: count_char_keys)
    with False Cons.IH [OF d] show ?thesis by (simp add: kn)
  qed
qed

lemma count_char_map_of:
  "map_of (count_char c freq) k
     = (if k = c then Some (case map_of freq c of None \<Rightarrow> 1 | Some n \<Rightarrow> n + 1)
        else map_of freq k)"
  by (induction freq) auto

lemma char_frequencies_snoc: "char_frequencies (s @ [c]) = count_char c (char_frequencies s)"
  by (simp add: char_frequencies_def)

lemma char_frequencies_counts:
  "distinct (map fst (char_frequencies s))
   \<and> fst ` set (char_frequencies s) = set s
   \<and> (\<forall>k\<in>set s. map_of (char_frequencies s) k = Some (count_list s k))"
proof (induction s rule: rev_induct)
  case Nil
  then show ?case by (simp add: char_frequencies_def)
next
  case (snoc c s)
  let ?fr = "char_frequencies s"
  from snoc have d: "distinct (map fst ?fr)" and keys: "fst ` set ?fr = set s"
    and m: "\<forall>k\<in>set s. map_of ?fr k = Some (count_list s k)" by simp_all
  have c: "(case map_of ?fr c of None \<Rightarrow> 1 | Some n \<Rightarrow> n + 1) = count_list s c + 1"
  proof (cases "c \<in> set s")
    case True
    with m show ?thesis by simp
  next
    case False
    then have "map_of ?fr c = None" using keys by (simp add: map_of_eq_None_iff)
    moreover from False have "count_list s c = 0" by (simp add: count_list_0_iff)
    ultimately show ?thesis by simp
  qed
  have "\<forall>k\<in>set (s @ [c]). map_of (count_char c ?fr) k = Some (count_list (s @ [c]) k)"
    using m c by (auto simp: count_char_map_of)
  with d keys show ?case
    by (simp add: char_frequencies_snoc count_char_distinct count_char_keys)
qed

lemma sum_list_by_key:
  "distinct (map fst freq) \<Longrightarrow>
   sum_list (map (\<lambda>kn. g (snd kn)) freq) = (\<Sum>k\<in>fst ` set freq. g (the (map_of freq k)))"
proof (induction freq)
  case Nil
  then show ?case by simp
next
  case (Cons kn freq)
  obtain k n where kn: "kn = (k, n)" by (cases kn)
  from Cons.prems have k: "k \<notin> fst ` set freq" and d: "distinct (map fst freq)"
    by (simp_all add: kn)
  have same: "(\<Sum>j\<in>fst ` set freq. g (the (map_of ((k, n) # freq) j)))
            = (\<Sum>j\<in>fst ` set freq. g (the (map_of freq j)))"
    using k by (intro sum.cong) auto
  have "(\<Sum>j\<in>fst ` set ((k, n) # freq). g (the (map_of ((k, n) # freq) j)))
      = g n + (\<Sum>j\<in>fst ` set freq. g (the (map_of ((k, n) # freq) j)))"
    using k by simp
  with same Cons.IH [OF d] show ?case by (simp add: kn)
qed

lemma calculate_entropy_is_shannon: "calculate_entropy s = shannon_entropy s"
proof (cases "s = []")
  case True
  then show ?thesis by (simp add: calculate_entropy_def shannon_entropy_def)
next
  case False
  define g where "g n = (real n / real (length s)) * log 2 (real n / real (length s))" for n :: nat
  note inv = char_frequencies_counts [of s]
  have "calculate_entropy s = foldl (\<lambda>e n. e - g n) 0 (map snd (char_frequencies s))"
    using False by (simp only: calculate_entropy_def Let_def g_def if_False)
  then have "calculate_entropy s = 0 - sum_list (map g (map snd (char_frequencies s)))"
    by (simp only: foldl_minus)
  also have "sum_list (map g (map snd (char_frequencies s)))
           = sum_list (map (\<lambda>kn. g (snd kn)) (char_frequencies s))"
    by (simp add: comp_def)
  also have "\<dots> = (\<Sum>k\<in>fst ` set (char_frequencies s). g (the (map_of (char_frequencies s) k)))"
    using inv by (intro sum_list_by_key) simp
  also have "\<dots> = (\<Sum>k\<in>set s. g (count_list s k))"
    using inv by (intro sum.cong) auto
  finally show ?thesis using False by (simp add: shannon_entropy_def g_def)
qed

lemma shannon_entropy_replicate: "shannon_entropy (replicate n c) = 0"
proof (cases "n = 0")
  case True
  then show ?thesis by (simp add: shannon_entropy_def)
next
  case False
  define s where "s = replicate n c"
  have cnt: "count_list s c = n" unfolding s_def by (induction n) simp_all
  have st: "set s = {c}" unfolding s_def using False by (intro set_replicate) simp
  have len: "length s = n" by (simp add: s_def)
  have ne: "s \<noteq> []" using False by (simp add: s_def)
  have "shannon_entropy s = 0"
    using False by (simp add: shannon_entropy_def ne st cnt len)
  then show ?thesis by (simp only: s_def)
qed

lemma log2_3_bounds: "11 / 7 < log 2 3" "log 2 3 < 8 / 5"
proof -
  have "real (11::nat) < log 2 (real (3 ^ 7 :: nat))"
    by (rule less_log2_of_power) simp
  moreover have "log 2 (real (3 ^ 7 :: nat)) = 7 * log 2 3"
    using log_nat_power [of 3 2 7] by simp
  ultimately show "11 / 7 < log 2 3" by simp
  have "log 2 (real (3 ^ 5 :: nat)) < real (8::nat)"
    by (rule log2_of_power_less) simp_all
  moreover have "log 2 (real (3 ^ 5 :: nat)) = 5 * log 2 3"
    using log_nat_power [of 3 2 5] by simp
  ultimately show "log 2 3 < 8 / 5" by simp
qed

lemma log2_fractions:
  "log 2 (1 / 16) = - 4" "log 2 (1 / 4) = - 2" "log 2 (3 / 16) = log 2 3 - 4"
proof -
  have 16: "log 2 16 = 4" using log_pow_cancel [of 2 4] by simp
  have 4: "log 2 4 = 2" using log_pow_cancel [of 2 2] by simp
  show "log 2 (1 / 16) = - 4" using 16 by (simp add: log_divide_pos)
  show "log 2 (1 / 4) = - 2" using 4 by (simp add: log_divide_pos)
  show "log 2 (3 / 16) = log 2 3 - 4" using 16 by (simp add: log_divide_pos)
qed

lemma entropy_url_frequencies:
  "map snd (char_frequencies entropy_url) = [1, 3, 1, 1, 4, 1, 1, 1, 1, 1, 1]"
  by code_simp

lemma entropy_url_entropy: "calculate_entropy entropy_url = 7 / 2 - 3 / 16 * log 2 3"
proof -
  have len: "length entropy_url = 16" and ne: "entropy_url \<noteq> []"
    by (simp_all add: entropy_url_def)
  define L where "L = log 2 3"
  have "calculate_entropy entropy_url
          = 0 - 1 / 16 * (- 4) - 3 / 16 * (L - 4) - 1 / 16 * (- 4) - 1 / 16 * (- 4)
              - 1 / 4 * (- 2) - 1 / 16 * (- 4) - 1 / 16 * (- 4) - 1 / 16 * (- 4)
              - 1 / 16 * (- 4) - 1 / 16 * (- 4) - 1 / 16 * (- 4)"
    by (simp add: calculate_entropy_def ne len entropy_url_frequencies Let_def log2_fractions
        L_def)
  also have "\<dots> = 7 / 2 - 3 / 16 * L" by argo
  finally show ?thesis by (simp only: L_def)
qed

lemma py_round2_multiple: "\<exists>k. py_round2 y = real_of_int k / 100"
  by (auto simp: py_round2_def)

lemma entropy_url_not_rounded: "calculate_entropy entropy_url \<noteq> py_round2 y"
proof
  assume eq: "calculate_entropy entropy_url = py_round2 y"
  from py_round2_multiple [of y] obtain k where k: "py_round2 y = real_of_int k / 100" by blast
  from eq k have "real_of_int k = 350 - 75 / 4 * log 2 3"
    by (simp add: entropy_url_entropy field_simps)
  with log2_3_bounds have "real_of_int 320 < real_of_int k" "real_of_int k < real_of_int 321"
    by simp_all
  then have "320 < k" "k < 321" by (simp_all only: of_int_less_iff)
  then show False by simp
qed

lemma entropy_url_parse:
  "urlparse chk entropy_url
     = Inr \<lparr>scheme = ''http'', netloc = ''t.io'', path = ''/ab/c'', params = '''',
            query = '''', fragment = ''''\<rparr>"
  by code_simp

lemma extract_all_features_entropy:
  assumes "extract_all_features chk ext u = Inr f"
  shows "\<exists>p. urlparse chk u = Inr p \<and> url_entropy (by_entropy f) = calculate_entropy u
           \<and> domain_entropy (by_entropy f) = calculate_entropy (netloc p)
           \<and> path_entropy (by_entropy f) = calculate_entropy (path p)"
  using assms
  by (auto simp: extract_all_features_def extract_entropy_features_def calculate_entropy_def
      split: sum.splits)

lemma extract_all_features_total:
  assumes "urlparse chk u = Inr p"
  shows "extract_all_features chk ext u = Inr (projr (extract_all_features chk ext u))"
  using assms by (simp add: extract_all_features_def extract_entropy_features_def)

text \<open>
  C5, as the claim states it, fails: the entropy features are not rounded. For the URL
  \<^verbatim>\<open>http://t.io/ab/c\<close> the feature \<open>url_entropy\<close> is \<open>7/2 - 3/16 * log 2 3\<close>, which is
  not a multiple of 1/100, so it differs from the Shannon entropy rounded to two decimals.
\<close>

theorem entropy_feature_not_rounded:
  "extract_all_features (check_bracketed_host offline) (tldextract offline) entropy_url
     = Inr (projr (extract_all_features (check_bracketed_host offline) (tldextract offline) entropy_url))
   \<and> url_entropy (by_entropy (projr (extract_all_features (check_bracketed_host offline) (tldextract offline)
                        entropy_url)))
       \<noteq> py_round2 (shannon_entropy entropy_url)"
proof -
  note t = extract_all_features_total [OF entropy_url_parse,
      of "check_bracketed_host offline" "tldextract offline"]
  from extract_all_features_entropy [OF t]
  have "url_entropy (by_entropy (projr (extract_all_features (check_bracketed_host offline) (tldextract offline)
                        entropy_url))) = calculate_entropy entropy_url" by blast
  with t entropy_url_not_rounded [of "shannon_entropy entropy_url"] show ?thesis by simp
qed

text \<open>
  C5, amended: for every URL that \<^verbatim>\<open>urlparse\<close> accepts, the three entropy features are the
  base-2 Shannon entropy of the URL, of its host and of its path, not rounded; only the
  \<open>url_entropy\<close> shown among the key features of the report is rounded to two decimals.
  The entropy of the empty string and of a string of one repeated character is exactly 0.
\<close>

theorem entropy_features_are_shannon:
  assumes "extract_all_features chk ext u = Inr f"
  shows "(\<exists>p. urlparse chk u = Inr p \<and> url_entropy (by_entropy f) = shannon_entropy u
            \<and> domain_entropy (by_entropy f) = shannon_entropy (netloc p)
            \<and> path_entropy (by_entropy f) = shannon_entropy (path p))
       \<and> key_url_entropy (extract_key_features
            \<lparr>features = Some f, feature_risk_score = score0, risk_factors = factors0,
             total_features = total0\<rparr>) = py_round2 (shannon_entropy u)
       \<and> calculate_entropy [] = 0 \<and> calculate_entropy (replicate n c) = 0
       \<and> shannon_entropy [] = 0 \<and> shannon_entropy (replicate n c) = 0"
proof -
  from extract_all_features_entropy [OF assms] have
    1: "\<exists>p. urlparse chk u = Inr p \<and> url_entropy (by_entropy f) = shannon_entropy u
            \<and> domain_entropy (by_entropy f) = shannon_entropy (netloc p)
            \<and> path_entropy (by_entropy f) = shannon_entropy (path p)"
    and u: "url_entropy (by_entropy f) = shannon_entropy u"
    by (auto simp: calculate_entropy_is_shannon)
  have 2: "key_url_entropy (extract_key_features
            \<lparr>features = Some f, feature_risk_score = score0, risk_factors = factors0,
             total_features = total0\<rparr>) = py_round2 (shannon_entropy u)"
    by (simp add: extract_key_features_def u)
  have 3: "shannon_entropy [] = 0" by (simp add: shannon_entropy_def)
  from 1 2 3 shannon_entropy_replicate [of n c] show ?thesis
    by (simp add: calculate_entropy_is_shannon)
qed

theorem entropy_features_are_shannon_witness:
  "extract_all_features (check_bracketed_host offline) (tldextract offline) entropy_url
     = Inr (projr (extract_all_features (check_bracketed_host offline) (tldextract offline) entropy_url))
   \<and> url_entropy (by_entropy (projr (extract_all_features (check_bracketed_host offline) (tldextract offline)
                        entropy_url))) = shannon_entropy entropy_url
   \<and> domain_entropy (by_entropy (projr (extract_all_features (check_bracketed_host offline) (tldextract offline)
                        entropy_url))) = shannon_entropy ''t.io''
   \<and> path_entropy (by_entropy (projr (extract_all_features (check_bracketed_host offline) (tldextract offline)
                        entropy_url))) = shannon_entropy ''/ab/c''"
proof -
  note t = extract_all_features_total [OF entropy_url_parse,
      of "check_bracketed_host offline" "tldextract offline"]
  from entropy_features_are_shannon [OF t] entropy_url_parse [of "check_bracketed_host offline"] t
  show ?thesis by auto
qed

end
